theory Spec2Isabelle
  imports Main "HOL-Library.Sublist"
begin

section \<open>Strings\<close>

text \<open>
  Python strings are modelled as \<^typ>\<open>string\<close>; a character stands for a code point
  below 256. \<open>str.lower()\<close> maps \<open>A\<close>..\<open>Z\<close> and the upper-case letters of the
  Latin-1 block (192..222 without the multiplication sign 215) to the code point 32 above,
  and leaves every other character of that range unchanged.
\<close>

definition lower_char :: "char \<Rightarrow> char" where
  "lower_char c =
     (let n = (of_char c :: nat)
      in if (65 \<le> n \<and> n \<le> 90) \<or> (192 \<le> n \<and> n \<le> 222 \<and> n \<noteq> 215)
         then char_of (n + 32) else c)"

definition lower :: "string \<Rightarrow> string" where
  "lower s = map lower_char s"

text \<open>The operator \<open>k in s\<close> on strings: \<open>k\<close> occurs in \<open>s\<close> as a contiguous block.\<close>

definition contains :: "string \<Rightarrow> string \<Rightarrow> bool" where
  "contains s k = sublist k s"

text \<open>\<open>any(k in s for k in ks)\<close>\<close>

definition any_in :: "string list \<Rightarrow> string \<Rightarrow> bool" where
  "any_in ks s = list_ex (\<lambda>k. contains s k) ks"

section \<open>Platform detection\<close>

datatype platform = YouTube | TikTok | Desconocida

definition detect_platform :: "string \<Rightarrow> platform" where
  "detect_platform url =
     (let url_lower = lower url
      in if contains url_lower ''youtube.com'' \<or> contains url_lower ''youtu.be'' then YouTube
         else if contains url_lower ''tiktok.com'' then TikTok
         else Desconocida)"

section \<open>Global state and the event log\<close>

datatype status = success | error | warning | info | processing

text \<open>
  What the program does to the outside world, in the order it does it: a directory
  created, a child process started with a command line, a line read from the child's
  output, the rate-limit pause, the termination request, the wait for the child's exit,
  a call of \<open>print_status\<close>, and the operator's browser session on a profile.
\<close>

datatype event =
    MakeDirs string
  | Popen "string list"
  | ReadLine string
  | RateLimitPause
  | Terminate
  | Wait
  | PrintStatus status
  | Intervention string

datatype exn = IndexError | OSError | EOFError | DatabaseError | ValueError

text \<open>
  The module's globals, with two things of the outside world beside them: for which
  directories \<open>os.makedirs(d, exist_ok=True)\<close> raises (no permission, a file in the way, a
  read-only or full file system), and the log of events.
\<close>

record globals =
  executable :: string
  PROJECT_DIR :: string
  USER_HOME :: string
  CHROMIUM_PROFILES :: "string list"
  CURRENT_PROFILE_INDEX :: nat
  makedirs_raises :: "string \<Rightarrow> bool"
  log :: "event list"

definition emit :: "event list \<Rightarrow> globals \<Rightarrow> globals" where
  "emit es g = g\<lparr>log := log g @ es\<rparr>"

text \<open>\<open>str(Path(d) / name)\<close> for a directory \<open>d\<close> written without a trailing slash.\<close>

definition path_join :: "string \<Rightarrow> string \<Rightarrow> string" where
  "path_join d name = (if d = ''/'' then d @ name else d @ ''/'' @ name)"

section \<open>The credential pool\<close>

text \<open>
  \<open>get_next_chromium_profile\<close>. With an empty pool the default profile directory is
  returned after \<open>os.makedirs\<close> of its \<open>Default\<close> subdirectory, and neither the pool nor
  the cursor changes; the call of \<open>os.makedirs\<close> stands in no \<open>try\<close>, so its exception
  leaves the function. Otherwise the profile under the cursor is returned and the cursor
  moves on, modulo the pool's length; a cursor outside the list is Python's IndexError.
\<close>

definition get_next_chromium_profile :: "globals \<Rightarrow> exn + (string \<times> globals)" where
  "get_next_chromium_profile g =
     (if CHROMIUM_PROFILES g = [] then
        (let profile_dir = path_join (USER_HOME g) ''chromium_data_1''
         in if makedirs_raises g (path_join profile_dir ''Default'') then Inl OSError
            else Inr (profile_dir, emit [MakeDirs (path_join profile_dir ''Default'')] g))
      else if CURRENT_PROFILE_INDEX g < length (CHROMIUM_PROFILES g) then
        Inr (CHROMIUM_PROFILES g ! CURRENT_PROFILE_INDEX g,
             g\<lparr>CURRENT_PROFILE_INDEX :=
                 (CURRENT_PROFILE_INDEX g + 1) mod length (CHROMIUM_PROFILES g)\<rparr>)
      else Inl IndexError)"

text \<open>\<open>n\<close> calls in a row, collecting what each returns.\<close>

fun next_profiles :: "nat \<Rightarrow> globals \<Rightarrow> exn + (string list \<times> globals)" where
  "next_profiles 0 g = Inr ([], g)"
| "next_profiles (Suc n) g =
     (case get_next_chromium_profile g of
        Inl e \<Rightarrow> Inl e
      | Inr (p, g') \<Rightarrow>
          (case next_profiles n g' of
             Inl e \<Rightarrow> Inl e
           | Inr (ps, g'') \<Rightarrow> Inr (p # ps, g'')))"

section \<open>Building the command line of an attempt\<close>

definition max_retries :: nat where
  "max_retries = 10"

definition use_cookies :: "platform \<Rightarrow> nat \<Rightarrow> bool" where
  "use_cookies platform attempt = (platform = TikTok \<or> (platform = YouTube \<and> attempt > 0))"

text \<open>
  The block that starts every iteration of the three retry loops: copy the base command,
  add the cookie source of the next profile when credentials are used (and the profile
  string is not empty), add the client-identity argument for YouTube, append the URL.
  The call of \<open>get_next_chromium_profile\<close> is outside the \<open>try\<close>, so its exception
  leaves the download function.
\<close>

definition attempt_command ::
  "string list \<Rightarrow> platform \<Rightarrow> nat \<Rightarrow> string \<Rightarrow> globals \<Rightarrow> exn + (string list \<times> globals)" where
  "attempt_command base_command platform attempt url g =
     (if use_cookies platform attempt then
        (case get_next_chromium_profile g of
           Inl e \<Rightarrow> Inl e
         | Inr (profile, g') \<Rightarrow>
             Inr ((if profile \<noteq> [] then
                     base_command
                     @ [''--cookies-from-browser'', ''chromium:'' @ profile @ ''/chromium'']
                     @ (if platform = YouTube
                        then [''--extractor-args'', ''youtube:player_client=tv_downgraded,web'']
                        else [])
                   else base_command)
                  @ [url], g'))
      else
        Inr (base_command
             @ (if platform = YouTube
                then [''--extractor-args'', ''youtube:player_client=android,tv'']
                else [])
             @ [url], g))"

section \<open>Reading and classifying the child's output\<close>

datatype signal = RateLimited | HardBlocked

definition block_phrases :: "string list" where
  "block_phrases =
     [''sign in to confirm'', ''not a bot'', ''captcha'', ''verify you are human'',
      ''403 forbidden'']"

definition privacy_phrases :: "string list" where
  "privacy_phrases = [''sign in'', ''private'', ''age-restricted'', ''login'', ''members-only'']"

text \<open>
  The two tests the loop body makes on a line, in the order it makes them. A line that
  raises no signal is a normal line: it is only echoed and kept.
\<close>

definition line_signals :: "string \<Rightarrow> signal list" where
  "line_signals line =
     (let line_lower = lower line
      in (if contains line_lower ''rate-limited by youtube'' then [RateLimited] else [])
         @ (if contains line_lower ''error:'' \<and> any_in block_phrases line_lower
            then [HardBlocked] else []))"

definition reaction :: "signal \<Rightarrow> event" where
  "reaction s = (case s of RateLimited \<Rightarrow> RateLimitPause | HardBlocked \<Rightarrow> Terminate)"

text \<open>
  \<open>for line in proc.stdout\<close>: the argument is what the child would print if it were
  never stopped. The result is the events of the loop, \<open>output_lines\<close> and
  \<open>killed_by_block\<close>; after a hard block the loop is left and the rest is never read.
\<close>

fun read_stream :: "string list \<Rightarrow> event list \<times> string list \<times> bool" where
  "read_stream [] = ([], [], False)"
| "read_stream (line # rest) =
     (let sigs = line_signals line;
          evs = ReadLine line # map reaction sigs
      in if HardBlocked \<in> set sigs then (evs, [line], True)
         else (case read_stream rest of
                 (evs', output_lines, killed) \<Rightarrow> (evs @ evs', line # output_lines, killed)))"

section \<open>Resolving the files an attempt produced\<close>

fun rfind :: "char \<Rightarrow> string \<Rightarrow> nat option" where
  "rfind c [] = None"
| "rfind c (x # xs) =
     (case rfind c xs of
        Some i \<Rightarrow> Some (Suc i)
      | None \<Rightarrow> if x = c then Some 0 else None)"

text \<open>\<open>Path.name\<close> and \<open>Path.suffix\<close> of a path given as its string.\<close>

definition path_name :: "string \<Rightarrow> string" where
  "path_name p = (case rfind CHR ''/'' p of Some i \<Rightarrow> drop (Suc i) p | None \<Rightarrow> p)"

definition path_suffix :: "string \<Rightarrow> string" where
  "path_suffix p =
     (let name = path_name p
      in case rfind CHR ''.'' name of
           Some i \<Rightarrow> if 0 < i \<and> Suc i < length name then drop i name else []
         | None \<Rightarrow> [])"

datatype media = Video | Audio

definition matches_ext :: "media \<Rightarrow> string \<Rightarrow> bool" where
  "matches_ext kind f =
     (case kind of
        Video \<Rightarrow> lower (path_suffix f) \<in> set [''.mp4'', ''.mkv'', ''.webm'', ''.flv'', ''.mov'']
      | Audio \<Rightarrow> lower (path_suffix f) = ''.mp3'')"

text \<open>
  The success branch's computation. A Python set is a list without duplicates here, in
  the order the set is iterated; the order is not specified by Python and no theorem
  below depends on it. \<open>list.sort\<close> is stable, as \<^const>\<open>sort_key\<close> is.
\<close>

definition resolve_new_files ::
  "media \<Rightarrow> string list \<Rightarrow> string list \<Rightarrow> (string \<Rightarrow> int) \<Rightarrow> string list" where
  "resolve_new_files kind existing_files listing st_mtime =
     (let current_files = remdups listing;
          new_files = filter (\<lambda>f. f \<notin> set existing_files) current_files;
          media_files = filter (matches_ext kind) new_files
      in sort_key st_mtime media_files)"

section \<open>The human-intervention gate\<close>

text \<open>
  What the outside world answers during one attempt: whether starting the child fails,
  the lines the child prints, the exit status \<open>proc.wait()\<close> leaves in
  \<open>proc.returncode\<close>, the target directory after the run and the modification times,
  and, for the browser session, whether starting Chromium fails, whether \<open>input()\<close>
  raises, and whether copying the cookies fails.
\<close>

record attempt_env =
  popen_raises :: bool
  child_lines :: "string list"
  returncode :: int
  glob_after :: "string \<Rightarrow> string \<Rightarrow> string list"
  st_mtime :: "string \<Rightarrow> int"
  browser_raises :: bool
  input_raises :: bool
  sync_raises :: bool

text \<open>
  \<open>open_browser_for_login\<close>: the next profile is taken from the pool, Chromium is started
  on it, and the program waits for the operator. The result carries the exception that
  leaves the function, if any, with the state reached.
\<close>

definition open_browser_for_login :: "attempt_env \<Rightarrow> string \<Rightarrow> globals \<Rightarrow> exn option \<times> globals" where
  "open_browser_for_login env url g =
     (case get_next_chromium_profile g of
        Inl e \<Rightarrow> (Some e, g)
      | Inr (profile_dir, g1) \<Rightarrow>
          (let g2 = emit (Intervention profile_dir
                          # (if browser_raises env then [PrintStatus error] else [])) g1
           in if input_raises env then (Some EOFError, g2)
              else (None, emit [PrintStatus processing,
                                PrintStatus (if sync_raises env then warning else success)] g2)))"

definition handle_manual_intervention ::
  "attempt_env \<Rightarrow> string \<Rightarrow> globals \<Rightarrow> exn option \<times> globals" where
  "handle_manual_intervention env url g = open_browser_for_login env url g"

section \<open>One attempt of a download\<close>

datatype 'r step = Return 'r | Continue | Break

text \<open>
  The failure branch, the same in the three functions up to the status lines: the
  privacy shortcut of the first attempt on YouTube, the hard-block branch with the
  browser session while retries remain, and the final error. An exception of the browser
  session is caught by the \<open>except\<close> of the attempt, which reports it and leaves the loop.
\<close>

definition on_failure ::
  "status list \<Rightarrow> status \<Rightarrow> platform \<Rightarrow> string \<Rightarrow> nat \<Rightarrow> attempt_env \<Rightarrow> string \<Rightarrow> globals
   \<Rightarrow> 'r step \<times> globals" where
  "on_failure privacy_status final_status platform url attempt env output g =
     (let error_msg = lower output
      in if attempt = 0 \<and> platform = YouTube \<and> any_in privacy_phrases error_msg then
           (Continue, emit (map PrintStatus privacy_status) g)
         else if any_in block_phrases error_msg \<and> attempt < max_retries then
           (case handle_manual_intervention env url g of
              (Some e, g') \<Rightarrow> (Break, emit [PrintStatus error] g')
            | (None, g') \<Rightarrow> (Continue, g'))
         else (Break, emit [PrintStatus final_status] g))"

definition target_dir :: "media \<Rightarrow> globals \<Rightarrow> string" where
  "target_dir kind g =
     path_join (PROJECT_DIR g) (case kind of Video \<Rightarrow> ''downloads'' | Audio \<Rightarrow> ''audio'')"

text \<open>
  The body of the retry loop of \<open>download_video_direct\<close> and \<open>download_audio_direct\<close>,
  which differ in the target directory, the base command and the extension test only.
\<close>

definition media_attempt ::
  "media \<Rightarrow> platform \<Rightarrow> string \<Rightarrow> string list \<Rightarrow> string list \<Rightarrow> nat \<Rightarrow> attempt_env \<Rightarrow> globals
   \<Rightarrow> exn + (string list step \<times> globals)" where
  "media_attempt kind platform url base_command existing_files attempt env g =
     (case attempt_command base_command platform attempt url g of
        Inl e \<Rightarrow> Inl e
      | Inr (command, g1) \<Rightarrow>
          if popen_raises env then Inr (Break, emit [PrintStatus error] g1)
          else
            (case read_stream (child_lines env) of
               (evs, output_lines, killed_by_block) \<Rightarrow>
                 (let g2 = emit (Popen command # evs @ [Wait]) g1;
                      output = concat output_lines
                  in if returncode env = 0 \<and> \<not> killed_by_block then
                       (let media_files =
                              resolve_new_files kind existing_files
                                (glob_after env (target_dir kind g) ''*'') (st_mtime env)
                        in if media_files \<noteq> [] then
                             Inr (Return media_files,
                                  emit (map (\<lambda>f. PrintStatus success) media_files) g2)
                           else Inr (Return [], g2))
                     else Inr (on_failure [warning] error platform url attempt env output g2))))"

section \<open>The retry loop\<close>

datatype 'r exit = Returned 'r | FellThrough

text \<open>
  \<open>for attempt in range(max_retries + 1)\<close> around a body: a \<open>return\<close> in the body ends the
  function with its value, \<open>continue\<close> goes to the next attempt, \<open>break\<close> and the end of
  the range fall through to the statement after the loop.
\<close>

function attempt_loop ::
  "(nat \<Rightarrow> globals \<Rightarrow> exn + ('r step \<times> globals)) \<Rightarrow> nat \<Rightarrow> globals \<Rightarrow> exn + ('r exit \<times> globals)" where
  "attempt_loop body attempt g =
     (if attempt < max_retries + 1 then
        (case body attempt g of
           Inl e \<Rightarrow> Inl e
         | Inr (Return r, g') \<Rightarrow> Inr (Returned r, g')
         | Inr (Continue, g') \<Rightarrow> attempt_loop body (Suc attempt) g'
         | Inr (Break, g') \<Rightarrow> Inr (FellThrough, g'))
      else Inr (FellThrough, g))"
  by pat_completeness auto
termination
  by (relation "measure (\<lambda>(body, attempt, g). max_retries + 1 - attempt)") auto

section \<open>Video and audio downloads\<close>

definition safe_mode_flags :: "string list" where
  "safe_mode_flags =
     [''--sleep-requests'', ''1'', ''--sleep-interval'', ''10'', ''--max-sleep-interval'', ''20'',
      ''--sleep-subtitles'', ''5'']"

definition base_command_of :: "media \<Rightarrow> globals \<Rightarrow> string list option \<Rightarrow> bool \<Rightarrow> string list" where
  "base_command_of kind g extra_options safe_mode =
     [executable g, ''-m'', ''yt_dlp'']
     @ (case kind of
          Video \<Rightarrow> []
        | Audio \<Rightarrow> [''-x'', ''--audio-format'', ''mp3'', ''--audio-quality'', ''320k'',
                    ''--embed-thumbnail'', ''--add-metadata''])
     @ [''--restrict-filenames'', ''--no-overwrites'', ''--ignore-errors'',
        ''--remote-components'', ''ejs:github'', ''-o'',
        path_join (target_dir kind g) ''%(title)s.%(ext)s'']
     @ (if safe_mode then safe_mode_flags else [])
     @ (case extra_options of None \<Rightarrow> [] | Some opts \<Rightarrow> opts)"

text \<open>
  The world of one goal: the answer of the title query of the subtitle download (exit
  status and standard output, or nothing when \<open>subprocess.run\<close> raises), the decimal
  digits of \<open>int(time.time())\<close>, the target directories before the first attempt, and
  what happens in each attempt.
\<close>

record goal_env =
  title_query :: "(int \<times> string) option"
  time_str :: string
  glob_before :: "string \<Rightarrow> string \<Rightarrow> string list"
  attempts :: "nat \<Rightarrow> attempt_env"

definition download_media_exit ::
  "media \<Rightarrow> goal_env \<Rightarrow> string \<Rightarrow> string list option \<Rightarrow> bool \<Rightarrow> globals
   \<Rightarrow> exn + (string list exit \<times> globals)" where
  "download_media_exit kind E url extra_options safe_mode g =
     (let platform = detect_platform url;
          g0 = emit [PrintStatus processing] g;
          existing_files = remdups (glob_before E (target_dir kind g) ''*'');
          base_command = base_command_of kind g extra_options safe_mode
      in attempt_loop
           (\<lambda>attempt. media_attempt kind platform url base_command existing_files attempt
                         (attempts E attempt))
           0 g0)"

text \<open>
  The value the caller gets: the list of a \<open>return\<close> inside the loop, or the \<open>return []\<close>
  after it.
\<close>

definition exit_value :: "string list exit \<Rightarrow> string list" where
  "exit_value x = (case x of Returned files \<Rightarrow> files | FellThrough \<Rightarrow> [])"

definition download_media_direct ::
  "media \<Rightarrow> goal_env \<Rightarrow> string \<Rightarrow> string list option \<Rightarrow> bool \<Rightarrow> globals
   \<Rightarrow> exn + (string list \<times> globals)" where
  "download_media_direct kind E url extra_options safe_mode g =
     (case download_media_exit kind E url extra_options safe_mode g of
        Inl e \<Rightarrow> Inl e
      | Inr (x, g') \<Rightarrow> Inr (exit_value x, g'))"

definition download_video_direct ::
  "goal_env \<Rightarrow> string \<Rightarrow> string list option \<Rightarrow> bool \<Rightarrow> globals \<Rightarrow> exn + (string list \<times> globals)" where
  "download_video_direct = download_media_direct Video"

definition download_audio_direct ::
  "goal_env \<Rightarrow> string \<Rightarrow> string list option \<Rightarrow> bool \<Rightarrow> globals \<Rightarrow> exn + (string list \<times> globals)" where
  "download_audio_direct = download_media_direct Audio"

section \<open>Subtitle download\<close>

definition is_space :: "char \<Rightarrow> bool" where
  "is_space c = ((of_char c :: nat) \<in> set [9, 10, 11, 12, 13, 28, 29, 30, 31, 32, 133, 160])"

definition strip :: "string \<Rightarrow> string" where
  "strip s = rev (dropWhile is_space (rev (dropWhile is_space s)))"

text \<open>
  The two \<open>replace\<close> calls and the \<open>re.sub\<close> of the title: each of the characters
  \<open>/ \ < > : " | ? *\<close> becomes an underscore.
\<close>

definition sanitize_char :: "char \<Rightarrow> char" where
  "sanitize_char c =
     (if (of_char c :: nat) \<in> set [47, 92, 60, 62, 58, 34, 124, 63, 42] then CHR ''_'' else c)"

definition video_title_of :: "goal_env \<Rightarrow> string" where
  "video_title_of E =
     (case title_query E of
        None \<Rightarrow> ''video_'' @ time_str E
      | Some (rc, out) \<Rightarrow>
          map sanitize_char (if rc = 0 then strip out else ''video_'' @ time_str E))"

definition SUBTITLES_DIR :: "globals \<Rightarrow> string" where
  "SUBTITLES_DIR g = path_join (PROJECT_DIR g) ''subtitles''"

text \<open>\<open>max(files, key=...)\<close> on a non-empty list: the first of the greatest.\<close>

fun max_by :: "('a \<Rightarrow> int) \<Rightarrow> 'a \<Rightarrow> 'a list \<Rightarrow> 'a" where
  "max_by key best [] = best"
| "max_by key best (x # xs) = max_by key (if key best < key x then x else best) xs"

text \<open>
  The \<open>for pattern in subtitle_patterns\<close> of the success branch: the newest file of the
  first pattern that matches anything. Globbing is the file system's answer to a pattern.
\<close>

fun find_subtitles :: "attempt_env \<Rightarrow> string \<Rightarrow> string list \<Rightarrow> string option" where
  "find_subtitles env dir [] = None"
| "find_subtitles env dir (pattern # patterns) =
     (case glob_after env dir pattern of
        [] \<Rightarrow> find_subtitles env dir patterns
      | f # fs \<Rightarrow> Some (max_by (st_mtime env) f fs))"

definition subtitle_patterns :: "string \<Rightarrow> string \<Rightarrow> string list" where
  "subtitle_patterns video_title language =
     [video_title @ ''*.'' @ language @ ''.srt'', video_title @ ''*.srt'',
      ''*'' @ language @ ''*.srt'']"

text \<open>
  The body of the retry loop of \<open>download_subtitles_direct\<close>. When the child ended well
  and no subtitle file is found, control runs on into the failure handling.
\<close>

definition subtitles_attempt ::
  "platform \<Rightarrow> string \<Rightarrow> string list \<Rightarrow> string \<Rightarrow> string \<Rightarrow> nat \<Rightarrow> attempt_env \<Rightarrow> globals
   \<Rightarrow> exn + (string step \<times> globals)" where
  "subtitles_attempt platform url base_command video_title language attempt env g =
     (case attempt_command base_command platform attempt url g of
        Inl e \<Rightarrow> Inl e
      | Inr (command, g1) \<Rightarrow>
          if popen_raises env then Inr (Break, emit [PrintStatus error] g1)
          else
            (case read_stream (child_lines env) of
               (evs, output_lines, killed_by_block) \<Rightarrow>
                 (let g2 = emit (Popen command # evs @ [Wait]) g1;
                      output = concat output_lines
                  in case (if returncode env = 0 \<and> \<not> killed_by_block
                           then find_subtitles env (SUBTITLES_DIR g)
                                  (subtitle_patterns video_title language)
                           else None) of
                       Some latest_file \<Rightarrow>
                         Inr (Return latest_file, emit [PrintStatus success] g2)
                     | None \<Rightarrow>
                         Inr (on_failure [] warning platform url attempt env output g2))))"

definition subtitles_base_command :: "globals \<Rightarrow> string \<Rightarrow> string \<Rightarrow> bool \<Rightarrow> string list" where
  "subtitles_base_command g video_title language safe_mode =
     [executable g, ''-m'', ''yt_dlp'', ''--write-subs'', ''--write-auto-subs'', ''--sub-langs'',
      language @ '',en'', ''--skip-download'', ''--convert-subs'', ''srt'', ''--no-overwrites'',
      ''--ignore-errors'', ''--remote-components'', ''ejs:github'', ''-o'',
      path_join (SUBTITLES_DIR g) (video_title @ ''.%(ext)s'')]
     @ (if safe_mode then safe_mode_flags else [])"

definition download_subtitles_exit ::
  "goal_env \<Rightarrow> string \<Rightarrow> string \<Rightarrow> bool \<Rightarrow> globals \<Rightarrow> exn + (string exit \<times> globals)" where
  "download_subtitles_exit E url language safe_mode g =
     (let platform = detect_platform url;
          g0 = emit [PrintStatus processing] g;
          video_title = video_title_of E;
          existing_subs =
            (case glob_before E (SUBTITLES_DIR g) (video_title @ ''*.'' @ language @ ''.srt'') of
               [] \<Rightarrow> glob_before E (SUBTITLES_DIR g) (video_title @ ''*.srt'')
             | fs \<Rightarrow> fs)
      in case existing_subs of
           f # fs \<Rightarrow> Inr (Returned f, g0)
         | [] \<Rightarrow>
             attempt_loop
               (\<lambda>attempt. subtitles_attempt platform url
                             (subtitles_base_command g video_title language safe_mode)
                             video_title language attempt (attempts E attempt))
               0 g0)"

definition download_subtitles_direct ::
  "goal_env \<Rightarrow> string \<Rightarrow> string \<Rightarrow> bool \<Rightarrow> globals \<Rightarrow> exn + (string option \<times> globals)" where
  "download_subtitles_direct E url language safe_mode g =
     (case download_subtitles_exit E url language safe_mode g of
        Inl e \<Rightarrow> Inl e
      | Inr (Returned f, g') \<Rightarrow> Inr (Some f, g')
      | Inr (FellThrough, g') \<Rightarrow> Inr (None, g'))"

section \<open>The cookie inspector\<close>

text \<open>
  A cookie database file as the inspector can find it: of size zero, of positive size but
  no database from which a \<open>cookies\<close> table can be read (damaged, without the table, a
  directory, unreadable or locked: opening it or querying it raises), or a table, given by
  the \<open>host_key\<close> column of its rows.
\<close>

datatype cookie_store = ZeroSize | Corrupt | CookieTable "string list"

text \<open>
  The file system as the inspector and the database library see it. Paths are the byte
  strings handed to the operating system; \<open>files\<close> maps a path to what is found there, and
  \<open>creatable\<close> says where a missing file can be created (the directory exists and is
  writable).
\<close>

record cookie_world =
  files :: "string \<Rightarrow> cookie_store option"
  creatable :: "string \<Rightarrow> bool"

text \<open>
  \<open>host_key LIKE '%domain%'\<close>: SQLite's \<open>LIKE\<close> ignores the case of ASCII letters only.
\<close>

definition ascii_lower_char :: "char \<Rightarrow> char" where
  "ascii_lower_char c =
     (let n = (of_char c :: nat) in if 65 \<le> n \<and> n \<le> 90 then char_of (n + 32) else c)"

definition like_contains :: "string \<Rightarrow> string \<Rightarrow> bool" where
  "like_contains host_key domain =
     contains (map ascii_lower_char host_key) (map ascii_lower_char domain)"

text \<open>
  \<open>cursor.execute(...)\<close> followed by \<open>cursor.fetchone()\<close>: whether a row matches. A file
  of size zero opens as a database without tables, so the query raises as well.
\<close>

definition select_like :: "cookie_store \<Rightarrow> string \<Rightarrow> exn + bool" where
  "select_like db domain =
     (case db of
        ZeroSize \<Rightarrow> Inl DatabaseError
      | Corrupt \<Rightarrow> Inl DatabaseError
      | CookieTable host_keys \<Rightarrow> Inr (list_ex (\<lambda>h. like_contains h domain) host_keys))"

subsection \<open>The file name of a database URI\<close>

text \<open>
  The inspector does not hand the path of the database to \<open>sqlite3.connect\<close>, but the
  string \<open>file:\<close>\<^emph>\<open>path\<close>\<open>?mode=ro\<close> with \<open>uri=True\<close>, the path written into it as it is.
  SQLite reads that string as a URI (\<open>sqlite3ParseUri\<close>): a fragment \<open>#...\<close> ends it, the
  first \<open>?\<close> ends the file name and starts the options \<open>name=value&...\<close>, and \<open>%HH\<close> stands
  for the byte with that hexadecimal code everywhere. The definitions below follow that
  function.
\<close>

definition NUL :: char where
  "NUL = CHR 0x00"

definition is_xdigit :: "char \<Rightarrow> bool" where
  "is_xdigit c =
     (let n = (of_char c :: nat)
      in (48 \<le> n \<and> n \<le> 57) \<or> (65 \<le> n \<and> n \<le> 70) \<or> (97 \<le> n \<and> n \<le> 102))"

text \<open>\<open>sqlite3HexToInt\<close>: \<open>h += 9*(1&(h>>6)); return h & 0xf\<close>\<close>

definition hex_to_int :: "char \<Rightarrow> nat" where
  "hex_to_int c = (let h = (of_char c :: nat) in (h + 9 * ((h div 64) mod 2)) mod 16)"

text \<open>
  The part of the URI after \<open>file:\<close>. If it starts with \<open>//\<close>, an authority follows, up to
  the next \<open>/\<close>; it must be empty or \<open>localhost\<close>, and is dropped.
\<close>

definition uri_strip_authority :: "string \<Rightarrow> exn + string" where
  "uri_strip_authority z =
     (if take 2 z = ''//'' then
        (let authority = takeWhile (\<lambda>c. c \<noteq> CHR ''/'') (drop 2 z)
         in if authority = [] \<or> authority = ''localhost''
            then Inr (dropWhile (\<lambda>c. c \<noteq> CHR ''/'') (drop 2 z))
            else Inl DatabaseError)
      else Inr z)"

text \<open>
  After \<open>%00\<close> the rest of the file name, option name or option value being read is
  ignored: the input is skipped up to the character that ends it in the parser state
  \<open>eState\<close> (0 in the file name, 1 in an option name, 2 in an option value).
\<close>

definition uri_part_ends :: "nat \<Rightarrow> char \<Rightarrow> bool" where
  "uri_part_ends eState c =
     (c = CHR ''#'' \<or> (eState = 0 \<and> c = CHR ''?'')
      \<or> (eState = 1 \<and> (c = CHR ''='' \<or> c = CHR ''&''))
      \<or> (eState = 2 \<and> c = CHR ''&''))"

definition skip_zero :: "nat \<Rightarrow> string \<Rightarrow> string" where
  "skip_zero eState cs = dropWhile (\<lambda>c. \<not> uri_part_ends eState c) cs"

text \<open>
  An option with an empty name is ignored: the input is skipped until the character
  before the position is \<open>&\<close>, or the position is at the end or at \<open>#\<close>.
\<close>

fun skip_option :: "char \<Rightarrow> string \<Rightarrow> string" where
  "skip_option prev [] = []"
| "skip_option prev (c # cs) =
     (if c = CHR ''#'' \<or> prev = CHR ''&'' then c # cs else skip_option c cs)"

text \<open>
  The copying loop of \<open>sqlite3ParseUri\<close>: from the input \<open>cs\<close> it fills the buffer \<open>out\<close>
  with the file name, then the names and values of the options, each closed by a zero
  byte.
\<close>

function uri_scan :: "nat \<Rightarrow> string \<Rightarrow> string \<Rightarrow> string" where
  "uri_scan eState out [] = (if eState = 1 then out @ [NUL] else out)"
| "uri_scan eState out (c # cs) =
     (if c = CHR ''#'' then (if eState = 1 then out @ [NUL] else out)
      else if c = CHR ''%'' \<and> 2 \<le> length cs \<and> is_xdigit (cs ! 0) \<and> is_xdigit (cs ! 1) then
        (let octet = hex_to_int (cs ! 0) * 16 + hex_to_int (cs ! 1)
         in if octet = 0 then uri_scan eState out (skip_zero eState (drop 2 cs))
            else uri_scan eState (out @ [char_of octet]) (drop 2 cs))
      else if eState = 1 \<and> (c = CHR ''&'' \<or> c = CHR ''='') then
        (if out = [] \<or> last out = NUL then uri_scan eState out (skip_option c cs)
         else if c = CHR ''&'' then uri_scan eState (out @ [NUL, NUL]) cs
         else uri_scan 2 (out @ [NUL]) cs)
      else if (eState = 0 \<and> c = CHR ''?'') \<or> (eState = 2 \<and> c = CHR ''&'') then
        uri_scan 1 (out @ [NUL]) cs
      else uri_scan eState (out @ [c]) cs)"
  by pat_completeness auto

termination uri_scan
proof (relation "measure (\<lambda>(eState, out, cs). length cs)")
  show "wf (measure (\<lambda>(eState, out, cs). length cs))" by simp
next
  fix eState :: nat and out :: string and c :: char and cs :: string
  have "length (dropWhile (\<lambda>c. \<not> uri_part_ends eState c) (drop 2 cs)) \<le> length (drop 2 cs)"
    by (rule length_dropWhile_le)
  then show "((eState, out, skip_zero eState (drop 2 cs)), (eState, out, c # cs))
       \<in> measure (\<lambda>(eState, out, cs). length cs)"
    by (simp add: skip_zero_def)
next
  fix eState :: nat and out :: string and c :: char and cs :: string
  have "length (skip_option c cs) \<le> length cs"
    by (induction c cs rule: skip_option.induct) auto
  then show "((eState, out, skip_option c cs), (eState, out, c # cs))
       \<in> measure (\<lambda>(eState, out, cs). length cs)"
    by simp
qed auto

text \<open>The buffer, cut at its zero bytes.\<close>

fun split_nul :: "string \<Rightarrow> string \<Rightarrow> string list" where
  "split_nul field [] = [field]"
| "split_nul field (c # cs) =
     (if c = NUL then field # split_nul [] cs else split_nul (field @ [c]) cs)"

text \<open>
  The options are read from the buffer after the file name, a name and a value at a time,
  until a name is empty.
\<close>

fun uri_options :: "string list \<Rightarrow> (string \<times> string) list" where
  "uri_options [] = []"
| "uri_options [zOpt] = (if zOpt = [] then [] else [(zOpt, [])])"
| "uri_options (zOpt # zVal # rest) = (if zOpt = [] then [] else (zOpt, zVal) # uri_options rest)"

text \<open>
  The access flags of \<open>sqlite3_open_v2\<close>, and the table of the values of \<open>mode\<close>.
\<close>

definition SQLITE_OPEN_READONLY :: nat where "SQLITE_OPEN_READONLY = 1"
definition SQLITE_OPEN_READWRITE :: nat where "SQLITE_OPEN_READWRITE = 2"
definition SQLITE_OPEN_CREATE :: nat where "SQLITE_OPEN_CREATE = 4"
definition SQLITE_OPEN_MEMORY :: nat where "SQLITE_OPEN_MEMORY = 128"

definition aOpenMode :: "(string \<times> nat) list" where
  "aOpenMode =
     [(''ro'', SQLITE_OPEN_READONLY),
      (''rw'', SQLITE_OPEN_READWRITE),
      (''rwc'', SQLITE_OPEN_READWRITE + SQLITE_OPEN_CREATE),
      (''memory'', SQLITE_OPEN_MEMORY)]"

text \<open>
  The options that are interpreted: \<open>vfs\<close> names the file-system layer, \<open>cache\<close> must be
  \<open>shared\<close> or \<open>private\<close>, and \<open>mode\<close> replaces the access flags by those of its value, which
  must be in the table and, without the memory flag, not above the flags in force
  (\<open>(mode & ~SQLITE_OPEN_MEMORY) > limit\<close> is refused). Other options are passed over.
\<close>

fun uri_apply_options ::
  "(string \<times> string) list \<Rightarrow> nat \<Rightarrow> string option \<Rightarrow> exn + (nat \<times> string option)" where
  "uri_apply_options [] flags zVfs = Inr (flags, zVfs)"
| "uri_apply_options ((zOpt, zVal) # rest) flags zVfs =
     (if zOpt = ''vfs'' then uri_apply_options rest flags (Some zVal)
      else if zOpt = ''cache'' then
        (if zVal = ''shared'' \<or> zVal = ''private'' then uri_apply_options rest flags zVfs
         else Inl DatabaseError)
      else if zOpt = ''mode'' then
        (case map_of aOpenMode zVal of
           None \<Rightarrow> Inl DatabaseError
         | Some mode \<Rightarrow>
             if flags < (if mode = SQLITE_OPEN_MEMORY then 0 else mode) then Inl DatabaseError
             else uri_apply_options rest mode zVfs)
      else uri_apply_options rest flags zVfs)"

text \<open>The file-system layers of a Unix build; all of them open the named file.\<close>

definition vfs_list :: "string list" where
  "vfs_list = [''unix'', ''unix-none'', ''unix-dotfile'', ''unix-excl'']"

text \<open>
  \<open>sqlite3ParseUri\<close> on a string that starts with \<open>file:\<close>, with the flags of the caller:
  the file name and the access flags to open it with.
\<close>

definition sqlite3ParseUri :: "string \<Rightarrow> nat \<Rightarrow> exn + (string \<times> nat)" where
  "sqlite3ParseUri zUri flags =
     (case uri_strip_authority (drop 5 zUri) of
        Inl e \<Rightarrow> Inl e
      | Inr z \<Rightarrow>
          (let zFile = split_nul [] (uri_scan 0 [] z)
           in case uri_apply_options (uri_options (tl zFile)) flags None of
                Inl e \<Rightarrow> Inl e
              | Inr (flags', zVfs) \<Rightarrow>
                  (case zVfs of
                     None \<Rightarrow> Inr (hd zFile, flags')
                   | Some v \<Rightarrow> if v \<in> set vfs_list then Inr (hd zFile, flags') else Inl DatabaseError)))"

text \<open>
  Opening the database. With the memory flag, without a file name or under the name
  \<open>:memory:\<close> the database is a new, empty one. Otherwise the file is opened; a missing
  file is created, empty, if the flags allow it and it can be created, and is an error if
  not.
\<close>

definition sqlite_open :: "cookie_world \<Rightarrow> string \<Rightarrow> nat \<Rightarrow> exn + (cookie_store \<times> cookie_world)" where
  "sqlite_open w zFile flags =
     (if flags = SQLITE_OPEN_MEMORY \<or> zFile = [] \<or> zFile = '':memory:'' then Inr (ZeroSize, w)
      else
        (case files w zFile of
           Some db \<Rightarrow> Inr (db, w)
         | None \<Rightarrow>
             if flags = SQLITE_OPEN_READWRITE + SQLITE_OPEN_CREATE \<and> creatable w zFile
             then Inr (ZeroSize, w\<lparr>files := (files w)(zFile \<mapsto> ZeroSize)\<rparr>)
             else Inl DatabaseError))"

text \<open>
  \<open>sqlite3.connect(database, uri=True)\<close> for a \<open>database\<close> that starts with \<open>file:\<close>: Python
  refuses a string with a zero byte and calls \<open>sqlite3_open_v2\<close> with the flags
  \<open>SQLITE_OPEN_READWRITE | SQLITE_OPEN_CREATE | SQLITE_OPEN_URI\<close>.
\<close>

definition sqlite3_connect :: "cookie_world \<Rightarrow> string \<Rightarrow> exn + (cookie_store \<times> cookie_world)" where
  "sqlite3_connect w database =
     (if NUL \<in> set database then Inl ValueError
      else
        (case sqlite3ParseUri database (SQLITE_OPEN_READWRITE + SQLITE_OPEN_CREATE) of
           Inl e \<Rightarrow> Inl e
         | Inr (zFile, flags) \<Rightarrow> sqlite_open w zFile flags))"

subsection \<open>The inspector\<close>

text \<open>
  \<open>Path.exists()\<close>, which is false for a path with a zero byte as well.
\<close>

definition path_exists :: "cookie_world \<Rightarrow> string \<Rightarrow> bool" where
  "path_exists w p = (NUL \<notin> set p \<and> files w p \<noteq> None)"

text \<open>
  The value of the variable \<open>cookies_db\<close> when the database is opened: the synchronised
  copy under \<open>chromium/Default\<close> when it exists with a positive size, the browser's own
  \<open>Default/Cookies\<close> otherwise; \<open>None\<close> when that does not exist either and the function
  returns.
\<close>

definition cookies_db_of :: "cookie_world \<Rightarrow> string \<Rightarrow> string option" where
  "cookies_db_of w profile_path =
     (let cookies_db = path_join (path_join (path_join profile_path ''chromium'') ''Default'') ''Cookies''
      in if \<not> path_exists w cookies_db \<or> files w cookies_db = Some ZeroSize
         then (let cookies_db = path_join (path_join profile_path ''Default'') ''Cookies''
               in if \<not> path_exists w cookies_db then None else Some cookies_db)
         else Some cookies_db)"

text \<open>
  \<open>analyze_profile_cookies\<close>; the result is the pair of the \<open>has_cookies\<close> entries of
  YouTube and TikTok, with the file system as the call leaves it. The bare
  \<open>except: pass\<close> keeps what was set before an exception.
\<close>

definition analyze_profile_cookies :: "cookie_world \<Rightarrow> string \<Rightarrow> (bool \<times> bool) \<times> cookie_world" where
  "analyze_profile_cookies w profile_path =
     (case cookies_db_of w profile_path of
        None \<Rightarrow> ((False, False), w)
      | Some cookies_db \<Rightarrow>
          (case sqlite3_connect w (''file:'' @ cookies_db @ ''?mode=ro'') of
             Inl e \<Rightarrow> ((False, False), w)
           | Inr (conn, w') \<Rightarrow>
               (case select_like conn ''youtube.com'' of
                  Inl e \<Rightarrow> ((False, False), w')
                | Inr yt \<Rightarrow>
                    (case select_like conn ''tiktok.com'' of
                       Inl e \<Rightarrow> ((yt, False), w')
                     | Inr tt \<Rightarrow> ((yt, tt), w')))))"

text \<open>\<open>platforms.get(platform, {}).get('has_cookies', False)\<close>\<close>

definition has_cookies :: "bool \<times> bool \<Rightarrow> platform \<Rightarrow> bool" where
  "has_cookies platforms platform =
     (case platform of YouTube \<Rightarrow> fst platforms | TikTok \<Rightarrow> snd platforms | Desconocida \<Rightarrow> False)"

text \<open>\<open>verify_platform_cookies\<close>: the loop over the pool, and the function.\<close>

fun verify_profiles :: "cookie_world \<Rightarrow> string list \<Rightarrow> platform \<Rightarrow> bool \<times> cookie_world" where
  "verify_profiles w [] platform = (False, w)"
| "verify_profiles w (profile_path # rest) platform =
     (case analyze_profile_cookies w profile_path of
        (platforms, w') \<Rightarrow>
          if has_cookies platforms platform then (True, w')
          else verify_profiles w' rest platform)"

definition verify_platform_cookies :: "cookie_world \<Rightarrow> globals \<Rightarrow> platform \<Rightarrow> bool \<times> cookie_world" where
  "verify_platform_cookies w g platform =
     (if CHROMIUM_PROFILES g = [] then (False, w)
      else verify_profiles w (CHROMIUM_PROFILES g) platform)"

definition platform_domain :: "platform \<Rightarrow> string" where
  "platform_domain platform =
     (case platform of YouTube \<Rightarrow> ''youtube.com'' | TikTok \<Rightarrow> ''tiktok.com'' | Desconocida \<Rightarrow> [])"

section \<open>Auxiliary notions for the properties\<close>

text \<open>The \<open>Default\<close> subdirectory of the default profile, which an empty pool creates.\<close>

definition default_profile_default_dir :: "globals \<Rightarrow> string" where
  "default_profile_default_dir g =
     path_join (path_join (USER_HOME g) ''chromium_data_1'') ''Default''"

text \<open>
  The pool can hand out a profile: the cursor of a non-empty pool points into the pool,
  and for an empty pool the default directory can be created. The first holds at
  start-up, where the cursor is 0, and every call of \<open>get_next_chromium_profile\<close> keeps
  both.
\<close>

definition pool_ok :: "globals \<Rightarrow> bool" where
  "pool_ok g =
     (if CHROMIUM_PROFILES g = [] then \<not> makedirs_raises g (default_profile_default_dir g)
      else CURRENT_PROFILE_INDEX g < length (CHROMIUM_PROFILES g))"

text \<open>
  Concrete states: a pool of three profiles, an empty pool, and an empty pool under a
  home directory in which nothing can be created.
\<close>

definition pool3 :: globals where
  "pool3 = \<lparr>executable = ''python3'', PROJECT_DIR = ''/p'', USER_HOME = ''/home/u'',
            CHROMIUM_PROFILES = [''/home/u/chromium_data_1'', ''/home/u/chromium_data_2'', ''/home/u/chromium_data_4''],
            CURRENT_PROFILE_INDEX = 0, makedirs_raises = (\<lambda>d. False), log = []\<rparr>"

definition pool0 :: globals where
  "pool0 = \<lparr>executable = ''python3'', PROJECT_DIR = ''/p'', USER_HOME = ''/home/u'',
            CHROMIUM_PROFILES = [], CURRENT_PROFILE_INDEX = 0, makedirs_raises = (\<lambda>d. False),
            log = []\<rparr>"

definition pool0_readonly :: globals where
  "pool0_readonly =
     \<lparr>executable = ''python3'', PROJECT_DIR = ''/p'', USER_HOME = ''/home/u'',
      CHROMIUM_PROFILES = [], CURRENT_PROFILE_INDEX = 0, makedirs_raises = (\<lambda>d. True),
      log = []\<rparr>"

definition is_intervention :: "event \<Rightarrow> bool" where
  "is_intervention e = (case e of Intervention p \<Rightarrow> True | _ \<Rightarrow> False)"

text \<open>How often the human-intervention gate was opened so far.\<close>

definition gate_calls :: "globals \<Rightarrow> nat" where
  "gate_calls g = length (filter is_intervention (log g))"

text \<open>
  Concrete attempts: the child ends with status 0 after a line that raised the hard-block
  signal, with a new video file in the target directory.
\<close>

definition env_blocked_exit0 :: attempt_env where
  "env_blocked_exit0 =
     \<lparr>popen_raises = False,
      child_lines = [''[download] 100% of 3.1MiB'', ''ERROR: Sign in to confirm you are not a bot''],
      returncode = 0,
      glob_after = (\<lambda>d p. [''/p/downloads/a.mp4'']),
      st_mtime = (\<lambda>f. 5),
      browser_raises = False, input_raises = False, sync_raises = False\<rparr>"

text \<open>A concrete attempt that fails on YouTube's sign-in wall.\<close>

definition env_sign_in :: attempt_env where
  "env_sign_in =
     \<lparr>popen_raises = False,
      child_lines = [''ERROR: [youtube] x: Sign in to confirm your age''],
      returncode = 1,
      glob_after = (\<lambda>d p. []),
      st_mtime = (\<lambda>f. 0),
      browser_raises = False, input_raises = False, sync_raises = False\<rparr>"


definition env_nothing_new :: attempt_env where
  "env_nothing_new =
     \<lparr>popen_raises = False,
      child_lines = [''[download] a.mp4 has already been downloaded''],
      returncode = 0,
      glob_after = (\<lambda>d p. [''/p/downloads/a.mp4'']),
      st_mtime = (\<lambda>f. 20),
      browser_raises = False, input_raises = False, sync_raises = False\<rparr>"

text \<open>
  An attempt in which the child starts, a line raises the hard-block signal, and the
  operator answers the prompt of the browser session.
\<close>

definition hard_blocked_env :: "attempt_env \<Rightarrow> bool" where
  "hard_blocked_env env =
     (\<not> popen_raises env \<and> \<not> input_raises env
      \<and> (\<exists>l\<in>set (child_lines env). HardBlocked \<in> set (line_signals l)))"

text \<open>\<open>output\<close>, the lines read from the child joined together.\<close>

definition captured_output :: "attempt_env \<Rightarrow> string" where
  "captured_output env = concat (fst (snd (read_stream (child_lines env))))"

definition privacy_shortcut :: "platform \<Rightarrow> attempt_env \<Rightarrow> bool" where
  "privacy_shortcut platform env =
     (platform = YouTube \<and> any_in privacy_phrases (lower (captured_output env)))"

text \<open>The retry loop of the video and audio downloads from a given attempt on.\<close>

definition media_loop ::
  "media \<Rightarrow> platform \<Rightarrow> string \<Rightarrow> string list \<Rightarrow> string list \<Rightarrow> goal_env \<Rightarrow> nat \<Rightarrow> globals
   \<Rightarrow> exn + (string list exit \<times> globals)" where
  "media_loop kind platform url base_command existing_files E attempt g =
     attempt_loop
       (\<lambda>attempt. media_attempt kind platform url base_command existing_files attempt
                     (attempts E attempt))
       attempt g"

text \<open>The exit of a run with the number of gate calls in its final state.\<close>

definition gate_count :: "exn + ('r exit \<times> globals) \<Rightarrow> ('r exit \<times> nat) option" where
  "gate_count r = (case r of Inl e \<Rightarrow> None | Inr (x, g) \<Rightarrow> Some (x, gate_calls g))"

text \<open>
  Concrete goals. A captcha wall on every attempt; the sign-in wall on every attempt; ten
  attempts at the captcha wall followed by a clean run that finds nothing new; a clean
  run that finds nothing new; a video that is not available.
\<close>

definition env_captcha :: attempt_env where
  "env_captcha =
     \<lparr>popen_raises = False,
      child_lines = [''ERROR: [TikTok] 1: captcha required''],
      returncode = 1,
      glob_after = (\<lambda>d p. []),
      st_mtime = (\<lambda>f. 0),
      browser_raises = False, input_raises = False, sync_raises = False\<rparr>"

definition env_unavailable :: attempt_env where
  "env_unavailable =
     \<lparr>popen_raises = False,
      child_lines = [''ERROR: [TikTok] 1: Video not available''],
      returncode = 1,
      glob_after = (\<lambda>d p. []),
      st_mtime = (\<lambda>f. 0),
      browser_raises = False, input_raises = False, sync_raises = False\<rparr>"

definition E_captcha :: goal_env where
  "E_captcha = \<lparr>title_query = None, time_str = ''0'', glob_before = (\<lambda>d p. []),
                 attempts = (\<lambda>i. env_captcha)\<rparr>"

definition E_sign_in :: goal_env where
  "E_sign_in = \<lparr>title_query = None, time_str = ''0'', glob_before = (\<lambda>d p. []),
                 attempts = (\<lambda>i. env_sign_in)\<rparr>"

definition E_ten_blocked :: goal_env where
  "E_ten_blocked = \<lparr>title_query = None, time_str = ''0'',
                     glob_before = (\<lambda>d p. [''/p/downloads/a.mp4'']),
                     attempts = (\<lambda>i. if i < 10 then env_captcha else env_nothing_new)\<rparr>"

definition E_nothing_new :: goal_env where
  "E_nothing_new = \<lparr>title_query = None, time_str = ''0'',
                     glob_before = (\<lambda>d p. [''/p/downloads/a.mp4'']),
                     attempts = (\<lambda>i. env_nothing_new)\<rparr>"

definition E_unavailable :: goal_env where
  "E_unavailable = \<lparr>title_query = None, time_str = ''0'', glob_before = (\<lambda>d p. []),
                     attempts = (\<lambda>i. env_unavailable)\<rparr>"

text \<open>
  A concrete file system: the first profile has an empty synchronised copy and a browser
  database with a YouTube cookie, the second profile has a damaged database, and there is
  nothing else.
\<close>

definition fs_example :: cookie_world where
  "fs_example =
     \<lparr>files = (\<lambda>p.
        if p = ''/home/u/chromium_data_1/chromium/Default/Cookies'' then Some ZeroSize
        else if p = ''/home/u/chromium_data_1/Default/Cookies''
          then Some (CookieTable [''.google.com'', ''.YouTube.com''])
        else if p = ''/home/u/chromium_data_2/chromium/Default/Cookies'' then Some Corrupt
        else None),
      creatable = (\<lambda>p. False)\<rparr>"

text \<open>
  A home directory with \<open>#\<close> in its name, \<open>/home/u#1\<close>, beside a file \<open>/home/u\<close> that is a
  cookie database with a YouTube cookie. The first profile of the home directory has a
  synchronised copy with one cookie, of another site; the second has an empty
  synchronised copy and a damaged browser database. The pool holds the first profile.
\<close>

definition fs_fragment :: cookie_world where
  "fs_fragment =
     \<lparr>files = (\<lambda>p.
        if p = ''/home/u#1/chromium_data_1/chromium/Default/Cookies''
          then Some (CookieTable [''.example.org''])
        else if p = ''/home/u#1/chromium_data_2/chromium/Default/Cookies'' then Some ZeroSize
        else if p = ''/home/u#1/chromium_data_2/Default/Cookies'' then Some Corrupt
        else if p = ''/home/u'' then Some (CookieTable [''.youtube.com''])
        else None),
      creatable = (\<lambda>p. False)\<rparr>"

definition pool_fragment :: globals where
  "pool_fragment =
     \<lparr>executable = ''python3'', PROJECT_DIR = ''/p'', USER_HOME = ''/home/u#1'',
      CHROMIUM_PROFILES = [''/home/u#1/chromium_data_1''], CURRENT_PROFILE_INDEX = 0,
      makedirs_raises = (\<lambda>d. False), log = []\<rparr>"

text \<open>
  A path that reads as itself inside the URI: it has none of the characters \<open>#\<close>, \<open>?\<close> and
  \<open>%\<close> and no zero byte, and does not start with \<open>//\<close>.
\<close>

definition uri_plain_char :: "char \<Rightarrow> bool" where
  "uri_plain_char c = (c \<noteq> CHR ''#'' \<and> c \<noteq> CHR ''?'' \<and> c \<noteq> CHR ''%'' \<and> c \<noteq> NUL)"

definition uri_plain :: "string \<Rightarrow> bool" where
  "uri_plain p = (list_all uri_plain_char p \<and> take 2 p \<noteq> ''//'')"

section \<open>The credential pool\<close>

lemma next_profiles_cycle:
  "CHROMIUM_PROFILES g \<noteq> [] \<Longrightarrow> CURRENT_PROFILE_INDEX g < length (CHROMIUM_PROFILES g) \<Longrightarrow>
   next_profiles n g =
     Inr (map (\<lambda>k. CHROMIUM_PROFILES g ! ((CURRENT_PROFILE_INDEX g + k) mod length (CHROMIUM_PROFILES g))) [0..<n],
          g\<lparr>CURRENT_PROFILE_INDEX := (CURRENT_PROFILE_INDEX g + n) mod length (CHROMIUM_PROFILES g)\<rparr>)"
proof (induction n arbitrary: g)
  case 0
  then show ?case by simp
next
  case (Suc n)
  let ?L = "length (CHROMIUM_PROFILES g)"
  let ?i = "CURRENT_PROFILE_INDEX g"
  let ?g' = "g\<lparr>CURRENT_PROFILE_INDEX := (?i + 1) mod ?L\<rparr>"
  have step: "get_next_chromium_profile g = Inr (CHROMIUM_PROFILES g ! ?i, ?g')"
    using Suc.prems by (simp add: get_next_chromium_profile_def)
  have L: "0 < ?L" using Suc.prems by simp
  have ih: "next_profiles n ?g' =
     Inr (map (\<lambda>k. CHROMIUM_PROFILES g ! (((?i + 1) mod ?L + k) mod ?L)) [0..<n],
          ?g'\<lparr>CURRENT_PROFILE_INDEX := ((?i + 1) mod ?L + n) mod ?L\<rparr>)"
    using Suc.IH [of ?g'] Suc.prems L by simp
  have idx: "\<And>k. ((?i + 1) mod ?L + k) mod ?L = (?i + Suc k) mod ?L"
    by (simp add: mod_add_left_eq)
  have upt: "[0..<Suc n] = 0 # map Suc [0..<n]"
    by (simp add: upt_conv_Cons map_Suc_upt del: upt_Suc)
  have i0: "?i mod ?L = ?i" using Suc.prems by simp
  show ?case
    unfolding upt using step ih idx i0 by (simp add: o_def del: upt_Suc)
qed

lemma next_profiles_empty:
  "CHROMIUM_PROFILES g = [] \<Longrightarrow> \<not> makedirs_raises g (default_profile_default_dir g) \<Longrightarrow>
   next_profiles n g =
     Inr (replicate n (path_join (USER_HOME g) ''chromium_data_1''),
          emit (replicate n (MakeDirs (default_profile_default_dir g))) g)"
proof (induction n arbitrary: g)
  case 0
  then show ?case by (simp add: emit_def)
next
  case (Suc n)
  let ?d = "path_join (USER_HOME g) ''chromium_data_1''"
  let ?g' = "emit [MakeDirs (default_profile_default_dir g)] g"
  have step: "get_next_chromium_profile g = Inr (?d, ?g')"
    using Suc.prems
    by (simp add: get_next_chromium_profile_def Let_def default_profile_default_dir_def)
  have "CHROMIUM_PROFILES ?g' = []" "USER_HOME ?g' = USER_HOME g"
    "\<not> makedirs_raises ?g' (default_profile_default_dir ?g')"
    "default_profile_default_dir ?g' = default_profile_default_dir g"
    using Suc.prems by (simp_all add: emit_def default_profile_default_dir_def)
  then show ?case
    using step Suc.IH [of ?g'] by (simp add: emit_def replicate_app_Cons_same)
qed

lemma get_next_empty_raises:
  "CHROMIUM_PROFILES g = [] \<Longrightarrow> makedirs_raises g (default_profile_default_dir g) \<Longrightarrow>
   get_next_chromium_profile g = Inl OSError"
  by (simp add: get_next_chromium_profile_def Let_def default_profile_default_dir_def)

text \<open>
  Claim C9, as amended. Starting with the cursor at 0, \<open>n\<close> calls on a pool \<open>[I0, I1, I2]\<close>
  return \<open>I0, I1, I2, I0, ...\<close> and leave the cursor at \<open>n mod 3\<close>. On an empty pool a call
  first creates the \<open>Default\<close> subdirectory of the default profile directory under the
  home directory: where \<open>os.makedirs\<close> succeeds, every call returns the default profile
  directory and leaves pool and cursor as they are; where it raises, the call raises the
  same error and returns no profile, and so does every sequence of calls.
\<close>

theorem credential_pool_round_robin:
  "(CHROMIUM_PROFILES g = [I0, I1, I2] \<and> CURRENT_PROFILE_INDEX g = 0 \<longrightarrow>
      next_profiles n g =
        Inr (map (\<lambda>k. [I0, I1, I2] ! (k mod 3)) [0..<n], g\<lparr>CURRENT_PROFILE_INDEX := n mod 3\<rparr>))
   \<and> (CHROMIUM_PROFILES g = [] \<and> \<not> makedirs_raises g (default_profile_default_dir g) \<longrightarrow>
      get_next_chromium_profile g =
        Inr (path_join (USER_HOME g) ''chromium_data_1'',
             emit [MakeDirs (path_join (path_join (USER_HOME g) ''chromium_data_1'') ''Default'')] g)
      \<and> next_profiles n g =
        Inr (replicate n (path_join (USER_HOME g) ''chromium_data_1''),
             emit (replicate n (MakeDirs (path_join (path_join (USER_HOME g) ''chromium_data_1'') ''Default''))) g))
   \<and> (CHROMIUM_PROFILES g = [] \<and> makedirs_raises g (default_profile_default_dir g) \<longrightarrow>
      get_next_chromium_profile g = Inl OSError \<and> next_profiles (Suc n) g = Inl OSError)"
proof (intro conjI impI)
  assume a: "CHROMIUM_PROFILES g = [I0, I1, I2] \<and> CURRENT_PROFILE_INDEX g = 0"
  then show "next_profiles n g =
        Inr (map (\<lambda>k. [I0, I1, I2] ! (k mod 3)) [0..<n], g\<lparr>CURRENT_PROFILE_INDEX := n mod 3\<rparr>)"
    using next_profiles_cycle [of g n] by simp
next
  assume "CHROMIUM_PROFILES g = [] \<and> \<not> makedirs_raises g (default_profile_default_dir g)"
  then show "get_next_chromium_profile g =
        Inr (path_join (USER_HOME g) ''chromium_data_1'',
             emit [MakeDirs (path_join (path_join (USER_HOME g) ''chromium_data_1'') ''Default'')] g)"
    by (simp add: get_next_chromium_profile_def Let_def default_profile_default_dir_def)
next
  assume "CHROMIUM_PROFILES g = [] \<and> \<not> makedirs_raises g (default_profile_default_dir g)"
  then have "next_profiles n g =
        Inr (replicate n (path_join (USER_HOME g) ''chromium_data_1''),
             emit (replicate n (MakeDirs (default_profile_default_dir g))) g)"
    by (simp add: next_profiles_empty)
  then show "next_profiles n g =
        Inr (replicate n (path_join (USER_HOME g) ''chromium_data_1''),
             emit (replicate n (MakeDirs (path_join (path_join (USER_HOME g) ''chromium_data_1'') ''Default''))) g)"
    by (simp add: default_profile_default_dir_def)
next
  assume "CHROMIUM_PROFILES g = [] \<and> makedirs_raises g (default_profile_default_dir g)"
  then show "get_next_chromium_profile g = Inl OSError"
    by (simp add: get_next_empty_raises)
next
  assume "CHROMIUM_PROFILES g = [] \<and> makedirs_raises g (default_profile_default_dir g)"
  then show "next_profiles (Suc n) g = Inl OSError"
    by (simp add: get_next_empty_raises)
qed

theorem credential_pool_round_robin_witness:
  "next_profiles 7 pool3 =
     Inr ([''/home/u/chromium_data_1'', ''/home/u/chromium_data_2'', ''/home/u/chromium_data_4'',
           ''/home/u/chromium_data_1'', ''/home/u/chromium_data_2'', ''/home/u/chromium_data_4'',
           ''/home/u/chromium_data_1''], pool3\<lparr>CURRENT_PROFILE_INDEX := 1\<rparr>)
   \<and> get_next_chromium_profile pool0 =
     Inr (''/home/u/chromium_data_1'', pool0\<lparr>log := [MakeDirs ''/home/u/chromium_data_1/Default'']\<rparr>)
   \<and> next_profiles 2 pool0_readonly = Inl OSError"
proof -
  have a: "CHROMIUM_PROFILES pool3 = [''/home/u/chromium_data_1'', ''/home/u/chromium_data_2'', ''/home/u/chromium_data_4''] \<and> CURRENT_PROFILE_INDEX pool3 = 0"
    by (simp add: pool3_def)
  have b: "CHROMIUM_PROFILES pool0 = [] \<and> \<not> makedirs_raises pool0 (default_profile_default_dir pool0)"
    by (simp add: pool0_def)
  have c: "CHROMIUM_PROFILES pool0_readonly = []
           \<and> makedirs_raises pool0_readonly (default_profile_default_dir pool0_readonly)"
    by (simp add: pool0_readonly_def)
  have u: "[0..<7] = [0, 1, 2, 3, 4, 5, 6::nat]" by (simp add: upt_rec)
  have e: "emit [MakeDirs (path_join (path_join (USER_HOME pool0) ''chromium_data_1'') ''Default'')] pool0
           = pool0\<lparr>log := [MakeDirs ''/home/u/chromium_data_1/Default'']\<rparr>"
    by (simp add: emit_def pool0_def path_join_def)
  have p: "path_join (USER_HOME pool0) ''chromium_data_1'' = ''/home/u/chromium_data_1''"
    by (simp add: pool0_def path_join_def)
  from credential_pool_round_robin [of pool3 "''/home/u/chromium_data_1''" "''/home/u/chromium_data_2''" "''/home/u/chromium_data_4''" 7] a
  have 1: "next_profiles 7 pool3 =
     Inr ([''/home/u/chromium_data_1'', ''/home/u/chromium_data_2'', ''/home/u/chromium_data_4'',
           ''/home/u/chromium_data_1'', ''/home/u/chromium_data_2'', ''/home/u/chromium_data_4'',
           ''/home/u/chromium_data_1''], pool3\<lparr>CURRENT_PROFILE_INDEX := 1\<rparr>)"
    by (simp add: u)
  from credential_pool_round_robin [of pool0 undefined undefined undefined 0] b e p
  have 2: "get_next_chromium_profile pool0 =
     Inr (''/home/u/chromium_data_1'', pool0\<lparr>log := [MakeDirs ''/home/u/chromium_data_1/Default'']\<rparr>)"
    by simp
  from credential_pool_round_robin [of pool0_readonly undefined undefined undefined 1] c
  have 3: "next_profiles 2 pool0_readonly = Inl OSError"
    by (simp add: numeral_2_eq_2)
  from 1 2 3 show ?thesis by simp
qed

text \<open>
  The empty pool under a home directory in which nothing can be created: the call
  raises the \<open>OSError\<close> of \<open>os.makedirs\<close> and hands out no profile.
\<close>

theorem empty_pool_makedirs_counterexample:
  "CHROMIUM_PROFILES pool0_readonly = []
   \<and> get_next_chromium_profile pool0_readonly = Inl OSError
   \<and> (\<nexists>p g'. get_next_chromium_profile pool0_readonly = Inr (p, g'))"
  by (simp add: get_next_chromium_profile_def Let_def pool0_readonly_def)

section \<open>Classifying the lines of the child's output\<close>

lemma contains_iff: "contains s k \<longleftrightarrow> (\<exists>pre post. s = pre @ k @ post)"
  by (simp add: contains_def sublist_def)

lemma any_in_iff: "any_in ks s \<longleftrightarrow> (\<exists>k\<in>set ks. contains s k)"
  by (simp add: any_in_def list_ex_iff)


lemma reaction_not_read: "ReadLine l \<notin> set (map reaction sigs)"
  by (auto simp: reaction_def split: signal.splits)

lemma reactions_no_read:
  "map reaction sigs = pre @ ReadLine l # post \<Longrightarrow> False"
  "pre @ ReadLine l # post = map reaction sigs \<Longrightarrow> False"
proof -
  have "ReadLine l \<in> set (map reaction sigs)" if "map reaction sigs = pre @ ReadLine l # post"
    using that by simp
  then show "map reaction sigs = pre @ ReadLine l # post \<Longrightarrow> False"
    and "pre @ ReadLine l # post = map reaction sigs \<Longrightarrow> False"
    using reaction_not_read by (blast, metis)
qed

lemma read_stream_killed_iff:
  "snd (snd (read_stream lines)) \<longleftrightarrow> (\<exists>l\<in>set lines. HardBlocked \<in> set (line_signals l))"
  by (induction lines) (auto simp: Let_def split: prod.splits)

text \<open>
  Claim C6. Whenever a line that raises the hard-block signal is read, the events that
  follow it in the reading loop contain the termination request and no further read of a
  line, and the attempt is marked as blocked.
\<close>

theorem terminate_before_next_read:
  "read_stream lines = (evs, output_lines, killed) \<Longrightarrow> evs = pre @ ReadLine l # post \<Longrightarrow>
   HardBlocked \<in> set (line_signals l) \<Longrightarrow>
   Terminate \<in> set post \<and> (\<forall>l'. ReadLine l' \<notin> set post) \<and> killed"
proof (induction lines arbitrary: evs output_lines killed pre)
  case Nil
  then show ?case by simp
next
  case (Cons line rest)
  show ?case
  proof (cases "HardBlocked \<in> set (line_signals line)")
    case True
    with Cons.prems(1) have evs: "evs = ReadLine line # map reaction (line_signals line)" and k: killed
      by (auto simp: Let_def)
    from evs Cons.prems(2) have "pre = [] \<and> l = line \<and> post = map reaction (line_signals line)"
      by (cases pre) (auto dest: reactions_no_read)
    with True k show ?thesis
      using reaction_not_read by (force simp: reaction_def)
  next
    case False
    obtain evs' out' k' where rs: "read_stream rest = (evs', out', k')"
      by (cases "read_stream rest") auto
    with False Cons.prems(1) have evs: "evs = ReadLine line # map reaction (line_signals line) @ evs'"
      and kk: "killed = k'"
      by (auto simp: Let_def)
    from Cons.prems(3) False have ne: "l \<noteq> line" by auto
    from evs Cons.prems(2) ne obtain pre0 where pre: "pre = ReadLine line # pre0"
      and eq: "map reaction (line_signals line) @ evs' = pre0 @ ReadLine l # post"
      by (cases pre) auto
    from eq obtain pre1 where "evs' = pre1 @ ReadLine l # post"
      by (auto simp: append_eq_append_conv2 append_eq_Cons_conv Cons_eq_append_conv
               dest: reactions_no_read)
    from Cons.IH [OF rs this Cons.prems(3)] kk show ?thesis by simp
  qed
qed


theorem terminate_before_next_read_witness:
  "read_stream [''[download] 10%'', ''ERROR: rate-limited by YouTube, captcha'', ''[download] 20%'']
     = ([ReadLine ''[download] 10%'', ReadLine ''ERROR: rate-limited by YouTube, captcha'',
         RateLimitPause, Terminate],
        [''[download] 10%'', ''ERROR: rate-limited by YouTube, captcha''], True)
   \<and> HardBlocked \<in> set (line_signals ''ERROR: rate-limited by YouTube, captcha'')
   \<and> Terminate \<in> set [RateLimitPause, Terminate]
   \<and> (\<forall>l'. ReadLine l' \<notin> set [RateLimitPause, Terminate])"
proof -
  let ?l = "''ERROR: rate-limited by YouTube, captcha''"
  have rs: "read_stream [''[download] 10%'', ?l, ''[download] 20%'']
          = ([ReadLine ''[download] 10%'', ReadLine ?l, RateLimitPause, Terminate], [''[download] 10%'', ?l], True)"
    by code_simp
  have hb: "HardBlocked \<in> set (line_signals ?l)" by code_simp
  from terminate_before_next_read [OF rs _ hb, of "[ReadLine ''[download] 10%'']" "[RateLimitPause, Terminate]"]
  have "Terminate \<in> set [RateLimitPause, Terminate] \<and> (\<forall>l'. ReadLine l' \<notin> set [RateLimitPause, Terminate])"
    by simp
  with rs hb show ?thesis by blast
qed

section \<open>The command line of an attempt\<close>

lemma get_next_ok:
  assumes "pool_ok g"
  shows "\<exists>p g'. get_next_chromium_profile g = Inr (p, g') \<and> pool_ok g'
           \<and> gate_calls g' = gate_calls g
           \<and> CHROMIUM_PROFILES g' = CHROMIUM_PROFILES g
           \<and> PROJECT_DIR g' = PROJECT_DIR g
           \<and> (\<exists>es. log g' = log g @ es \<and> (\<forall>e\<in>set es. \<exists>d. e = MakeDirs d))
           \<and> (p = [] \<longrightarrow> [] \<in> set (CHROMIUM_PROFILES g))"
proof (cases "CHROMIUM_PROFILES g = []")
  case True
  then show ?thesis
    using assms
    by (simp add: get_next_chromium_profile_def Let_def pool_ok_def emit_def gate_calls_def
        is_intervention_def default_profile_default_dir_def path_join_def)
next
  case False
  with assms have i: "CURRENT_PROFILE_INDEX g < length (CHROMIUM_PROFILES g)"
    by (simp add: pool_ok_def)
  with False show ?thesis
    by (auto simp: get_next_chromium_profile_def pool_ok_def gate_calls_def) (metis nth_mem)
qed

text \<open>
  Claim C4. TikTok uses credentials on every attempt, YouTube exactly from the second
  attempt on. With credentials the command line gets the cookie source of the next
  profile of the pool, and on YouTube the downgraded client identity after it; the
  anonymous first attempt on YouTube gets the lighter client identity and takes no
  profile. The profiles of the pool are directory names, hence not empty.
\<close>

theorem credential_policy:
  assumes "pool_ok g" and "[] \<notin> set (CHROMIUM_PROFILES g)"
  shows "use_cookies TikTok attempt \<and> (use_cookies YouTube attempt \<longleftrightarrow> 0 < attempt)
    \<and> (\<exists>profile g'. get_next_chromium_profile g = Inr (profile, g')
         \<and> attempt_command base_command TikTok attempt url g =
             Inr (base_command
                  @ [''--cookies-from-browser'', ''chromium:'' @ profile @ ''/chromium'', url], g')
         \<and> (0 < attempt \<longrightarrow>
              attempt_command base_command YouTube attempt url g =
                Inr (base_command
                     @ [''--cookies-from-browser'', ''chromium:'' @ profile @ ''/chromium'',
                        ''--extractor-args'', ''youtube:player_client=tv_downgraded,web'', url], g')))
    \<and> attempt_command base_command YouTube 0 url g =
        Inr (base_command @ [''--extractor-args'', ''youtube:player_client=android,tv'', url], g)"
proof -
  from get_next_ok [OF assms(1)] assms(2) obtain p g' where
    gn: "get_next_chromium_profile g = Inr (p, g')" and ne: "p \<noteq> []"
    by blast
  then show ?thesis
    by (simp add: attempt_command_def use_cookies_def)
qed

theorem credential_policy_witness:
  "attempt_command [''yt-dlp''] YouTube 0 ''https://youtu.be/x'' pool3 =
     Inr ([''yt-dlp'', ''--extractor-args'', ''youtube:player_client=android,tv'', ''https://youtu.be/x''],
          pool3)
   \<and> use_cookies YouTube 1 \<and> use_cookies TikTok 0"
proof -
  have a: "pool_ok pool3" by (simp add: pool_ok_def pool3_def)
  have b: "[] \<notin> set (CHROMIUM_PROFILES pool3)" by (simp add: pool3_def)
  from credential_policy [OF a b, of 0 "[''yt-dlp'']" "''https://youtu.be/x''"]
    credential_policy [OF a b, of 1 "[''yt-dlp'']" "''https://youtu.be/x''"]
  show ?thesis by simp
qed

section \<open>One attempt\<close>

lemma on_failure_not_return: "fst (on_failure ps fs platform url attempt env output g) \<noteq> Return r"
  by (simp add: on_failure_def Let_def split: prod.splits option.splits)

lemma read_stream_killed:
  "read_stream lines = (evs, output_lines, killed) \<Longrightarrow>
   killed \<longleftrightarrow> (\<exists>l\<in>set lines. HardBlocked \<in> set (line_signals l))"
  using read_stream_killed_iff [of lines] by simp

text \<open>
  Claim C1. In the video, audio and subtitle paths alike, an attempt whose child ended
  with a non-zero status, or during which a line raised the hard-block signal, does not
  return a result: it ends in \<open>continue\<close> or \<open>break\<close>, whatever the exit status is.
\<close>

theorem success_requires_zero_exit_and_no_block:
  assumes "returncode env \<noteq> 0 \<or> (\<exists>l\<in>set (child_lines env). HardBlocked \<in> set (line_signals l))"
  shows "(\<forall>files g'. media_attempt kind platform url base_command existing_files attempt env g
            \<noteq> Inr (Return files, g'))
       \<and> (\<forall>f g'. subtitles_attempt platform url base_command video_title language attempt env g
            \<noteq> Inr (Return f, g'))"
proof -
  obtain evs out killed where rs: "read_stream (child_lines env) = (evs, out, killed)"
    by (cases "read_stream (child_lines env)") auto
  from assms read_stream_killed [OF rs] have fail: "\<not> (returncode env = 0 \<and> \<not> killed)"
    by blast
  have m: "media_attempt kind platform url base_command existing_files attempt env g
            \<noteq> Inr (Return files, g')" for files g'
    using rs fail on_failure_not_return [where 'a = "string list"]
    by (auto simp: media_attempt_def Let_def split: sum.splits prod.splits if_splits)
        (metis fst_conv)+
  have s: "subtitles_attempt platform url base_command video_title language attempt env g
            \<noteq> Inr (Return f, g')" for f g'
    using rs fail on_failure_not_return [where 'a = string]
    by (auto simp: subtitles_attempt_def Let_def split: sum.splits prod.splits if_splits)
        (metis fst_conv)+
  from m s show ?thesis by blast
qed

theorem success_requires_zero_exit_and_no_block_witness:
  "returncode env_blocked_exit0 = 0
   \<and> HardBlocked \<in> set (line_signals (child_lines env_blocked_exit0 ! 1))
   \<and> media_attempt Video TikTok ''https://www.tiktok.com/@u/video/1'' [''yt-dlp''] [] 3
        env_blocked_exit0 pool3 \<noteq> Inr (Return [''/p/downloads/a.mp4''], pool3)"
proof -
  have hb: "HardBlocked \<in> set (line_signals (child_lines env_blocked_exit0 ! 1))"
    unfolding env_blocked_exit0_def by code_simp
  then have "\<exists>l\<in>set (child_lines env_blocked_exit0). HardBlocked \<in> set (line_signals l)"
    by (auto simp: env_blocked_exit0_def)
  then have h: "returncode env_blocked_exit0 \<noteq> 0
      \<or> (\<exists>l\<in>set (child_lines env_blocked_exit0). HardBlocked \<in> set (line_signals l))"
    by blast
  have rc: "returncode env_blocked_exit0 = 0" by (simp add: env_blocked_exit0_def)
  from success_requires_zero_exit_and_no_block [OF h] hb rc show ?thesis by blast
qed

section \<open>The privacy shortcut of the first attempt\<close>

lemma is_intervention_simps [simp]:
  "is_intervention (Intervention p)" "\<not> is_intervention (MakeDirs d)"
  "\<not> is_intervention (Popen c)" "\<not> is_intervention (ReadLine l)"
  "\<not> is_intervention RateLimitPause" "\<not> is_intervention Terminate"
  "\<not> is_intervention Wait" "\<not> is_intervention (PrintStatus s)"
  by (simp_all add: is_intervention_def)

lemma filter_intervention_stream:
  "read_stream lines = (evs, out, killed) \<Longrightarrow> filter is_intervention evs = []"
proof (induction lines arbitrary: evs out killed)
  case Nil
  then show ?case by simp
next
  case (Cons line rest)
  have r: "filter is_intervention (map reaction sigs) = []" for sigs
    by (induction sigs) (auto simp: reaction_def split: signal.splits)
  obtain evs' out' k' where rs: "read_stream rest = (evs', out', k')"
    by (cases "read_stream rest") auto
  from Cons.IH [OF rs] Cons.prems rs r show ?case
    by (auto simp: Let_def split: if_splits)
qed


lemma gate_calls_emit:
  "gate_calls (emit es g) = gate_calls g + length (filter is_intervention es)"
  by (simp add: gate_calls_def emit_def)

lemma pool_ok_emit [simp]: "pool_ok (emit es g) = pool_ok g"
  by (simp add: pool_ok_def emit_def default_profile_default_dir_def)

lemma attempt_command_ok:
  assumes "pool_ok g"
  shows "\<exists>command g1. attempt_command base_command platform attempt url g = Inr (command, g1)
           \<and> pool_ok g1 \<and> gate_calls g1 = gate_calls g \<and> PROJECT_DIR g1 = PROJECT_DIR g
           \<and> (\<exists>es. log g1 = log g @ es \<and> (\<forall>e\<in>set es. \<exists>d. e = MakeDirs d))"
proof (cases "use_cookies platform attempt")
  case True
  with get_next_ok [OF assms] show ?thesis
    by (auto simp: attempt_command_def)
next
  case False
  with assms show ?thesis
    by (simp add: attempt_command_def)
qed

lemma gate_opens:
  assumes "pool_ok g"
  shows "\<exists>e g'. handle_manual_intervention env url g = (e, g') \<and> pool_ok g'
           \<and> gate_calls g' = gate_calls g + 1 \<and> (e = None \<longleftrightarrow> \<not> input_raises env)"
proof -
  from get_next_ok [OF assms] obtain p g1 where
    "get_next_chromium_profile g = Inr (p, g1)" "pool_ok g1" "gate_calls g1 = gate_calls g"
    by blast
  then show ?thesis
    by (simp add: handle_manual_intervention_def open_browser_for_login_def Let_def
        gate_calls_emit)
qed

lemma sign_in_is_privacy_phrase:
  assumes "contains s ''sign in to confirm''"
  shows "any_in privacy_phrases s"
proof -
  have a: "sublist ''sign in'' ''sign in to confirm''" by code_simp
  from assms have b: "sublist ''sign in to confirm'' s" by (simp add: contains_def)
  from a b have "sublist ''sign in'' s" by (rule sublist_order.order.trans)
  then show ?thesis
    by (simp add: any_in_def privacy_phrases_def contains_def)
qed

lemma sign_in_is_block_phrase:
  "contains s ''sign in to confirm'' \<Longrightarrow> any_in block_phrases s"
  by (simp add: any_in_def block_phrases_def)

lemma media_attempt_failure:
  assumes "attempt_command base_command platform attempt url g = Inr (command, g1)"
    and "\<not> popen_raises env"
    and "read_stream (child_lines env) = (evs, output_lines, killed_by_block)"
    and "returncode env \<noteq> 0 \<or> killed_by_block"
  shows "media_attempt kind platform url base_command existing_files attempt env g =
           Inr (on_failure [warning] error platform url attempt env (concat output_lines)
                  (emit (Popen command # evs @ [Wait]) g1))"
  using assms by (auto simp: media_attempt_def Let_def)

lemma on_failure_shortcut:
  assumes "any_in privacy_phrases (lower output)"
  shows "on_failure ps fs YouTube url 0 env output g = (Continue, emit (map PrintStatus ps) g)"
  using assms by (simp add: on_failure_def Let_def)

lemma on_failure_gate:
  assumes "attempt \<noteq> 0 \<or> platform \<noteq> YouTube \<or> \<not> any_in privacy_phrases (lower output)"
    and "any_in block_phrases (lower output)" and "attempt < max_retries"
    and "handle_manual_intervention env url g = (e, g')"
  shows "on_failure ps fs platform url attempt env output g =
           (if e = None then (Continue, g') else (Break, emit [PrintStatus error] g'))"
  using assms by (cases e) (auto simp: on_failure_def Let_def)

lemma on_failure_final:
  assumes "attempt \<noteq> 0 \<or> platform \<noteq> YouTube \<or> \<not> any_in privacy_phrases (lower output)"
    and "\<not> any_in block_phrases (lower output) \<or> \<not> attempt < max_retries"
  shows "on_failure ps fs platform url attempt env output g = (Break, emit [PrintStatus fs] g)"
  using assms by (auto simp: on_failure_def Let_def)

text \<open>
  Claim C5. When the first attempt on YouTube fails and the captured output contains
  \<open>sign in to confirm\<close>, or any other of the privacy phrases, the attempt ends in
  \<open>continue\<close> without opening the gate, and the next attempt uses credentials. The
  shortcut belongs to attempt 0 only: a later attempt that fails with \<open>sign in to confirm\<close>
  while retries remain opens the gate once.
\<close>

theorem first_attempt_privacy_shortcut:
  assumes "pool_ok g" and "\<not> popen_raises env"
    and "read_stream (child_lines env) = (evs, output_lines, killed_by_block)"
    and "returncode env \<noteq> 0 \<or> killed_by_block"
    and "contains (lower (concat output_lines)) ''sign in to confirm''
         \<or> any_in privacy_phrases (lower (concat output_lines))"
  shows "(\<exists>g'. media_attempt kind YouTube url base_command existing_files 0 env g = Inr (Continue, g')
               \<and> gate_calls g' = gate_calls g)
       \<and> use_cookies YouTube 1
       \<and> (0 < attempt \<and> attempt < max_retries
            \<and> contains (lower (concat output_lines)) ''sign in to confirm'' \<longrightarrow>
          (\<exists>s g'. media_attempt kind YouTube url base_command existing_files attempt env g = Inr (s, g')
                   \<and> gate_calls g' = gate_calls g + 1))"
proof (intro conjI impI)
  from assms(5) have priv: "any_in privacy_phrases (lower (concat output_lines))"
    using sign_in_is_privacy_phrase by blast
  have cmd: "attempt_command base_command YouTube 0 url g
             = Inr (base_command @ [''--extractor-args'', ''youtube:player_client=android,tv'', url], g)"
    by (simp add: attempt_command_def use_cookies_def)
  from filter_intervention_stream [OF assms(3)] have ni: "filter is_intervention evs = []" .
  have "media_attempt kind YouTube url base_command existing_files 0 env g =
          Inr (Continue, emit [PrintStatus warning]
                 (emit (Popen (base_command @ [''--extractor-args'', ''youtube:player_client=android,tv'', url])
                        # evs @ [Wait]) g))"
    unfolding media_attempt_failure [OF cmd assms(2,3,4)] on_failure_shortcut [OF priv] by simp
  moreover have "gate_calls (emit [PrintStatus warning]
                 (emit (Popen (base_command @ [''--extractor-args'', ''youtube:player_client=android,tv'', url])
                        # evs @ [Wait]) g)) = gate_calls g"
    using ni by (simp add: gate_calls_emit)
  ultimately show "\<exists>g'. media_attempt kind YouTube url base_command existing_files 0 env g = Inr (Continue, g')
               \<and> gate_calls g' = gate_calls g"
    by blast
next
  show "use_cookies YouTube 1" by (simp add: use_cookies_def)
next
  assume a: "0 < attempt \<and> attempt < max_retries
            \<and> contains (lower (concat output_lines)) ''sign in to confirm''"
  then have blk: "any_in block_phrases (lower (concat output_lines))"
    using sign_in_is_block_phrase by blast
  from attempt_command_ok [OF assms(1)] obtain command g1 where
    cmd: "attempt_command base_command YouTube attempt url g = Inr (command, g1)"
    and ok1: "pool_ok g1" and gc1: "gate_calls g1 = gate_calls g"
    by blast
  let ?g2 = "emit (Popen command # evs @ [Wait]) g1"
  from filter_intervention_stream [OF assms(3)] have ni: "filter is_intervention evs = []" .
  have gc2: "gate_calls ?g2 = gate_calls g"
    using gc1 ni by (simp add: gate_calls_emit)
  have ok2: "pool_ok ?g2" using ok1 by simp
  from gate_opens [OF ok2] obtain e g3 where
    gate: "handle_manual_intervention env url ?g2 = (e, g3)" and gc3: "gate_calls g3 = gate_calls ?g2 + 1"
    by blast
  from a have na: "attempt \<noteq> 0 \<or> YouTube \<noteq> YouTube \<or> \<not> any_in privacy_phrases (lower (concat output_lines))"
    and lt: "attempt < max_retries" by simp_all
  have "media_attempt kind YouTube url base_command existing_files attempt env g =
          Inr (if e = None then (Continue, g3) else (Break, emit [PrintStatus error] g3))"
    unfolding media_attempt_failure [OF cmd assms(2,3,4)] on_failure_gate [OF na blk lt gate] ..
  moreover have "gate_calls (emit [PrintStatus error] g3) = gate_calls g + 1"
    using gc3 gc2 by (simp add: gate_calls_emit)
  moreover have "gate_calls g3 = gate_calls g + 1" using gc3 gc2 by simp
  ultimately show "\<exists>s g'. media_attempt kind YouTube url base_command existing_files attempt env g = Inr (s, g')
                   \<and> gate_calls g' = gate_calls g + 1"
    by (cases "e = None") auto
qed

theorem first_attempt_privacy_shortcut_witness:
  "(\<exists>g'. media_attempt Audio YouTube ''https://youtu.be/x'' [''yt-dlp''] [] 0 env_sign_in pool3
            = Inr (Continue, g') \<and> gate_calls g' = gate_calls pool3)
   \<and> (\<exists>s g'. media_attempt Audio YouTube ''https://youtu.be/x'' [''yt-dlp''] [] 1 env_sign_in pool3
            = Inr (s, g') \<and> gate_calls g' = gate_calls pool3 + 1)"
proof -
  let ?l = "''ERROR: [youtube] x: Sign in to confirm your age''"
  have ok: "pool_ok pool3" by (simp add: pool_ok_def pool3_def)
  have np: "\<not> popen_raises env_sign_in" by (simp add: env_sign_in_def)
  have rs0: "read_stream [?l] = ([ReadLine ?l, Terminate], [?l], True)" by code_simp
  then have rs: "read_stream (child_lines env_sign_in) = ([ReadLine ?l, Terminate], [?l], True)"
    by (simp add: env_sign_in_def)
  have rc: "returncode env_sign_in \<noteq> 0 \<or> True" by simp
  have c0: "contains (lower (concat [?l])) ''sign in to confirm''" by code_simp
  then have c: "contains (lower (concat [?l])) ''sign in to confirm''
      \<or> any_in privacy_phrases (lower (concat [?l]))" by blast
  have a: "0 < (1::nat) \<and> (1::nat) < max_retries" by (simp add: max_retries_def)
  from first_attempt_privacy_shortcut [OF ok np rs rc c, of Audio "''https://youtu.be/x''" "[''yt-dlp'']" "[]" 1]
    a c0 show ?thesis by blast
qed

section \<open>Resolving the produced files\<close>

lemma target_dir_PROJECT_DIR: "PROJECT_DIR g' = PROJECT_DIR g \<Longrightarrow> target_dir kind g' = target_dir kind g"
  by (simp add: target_dir_def)

lemma media_attempt_success:
  assumes "attempt_command base_command platform attempt url g = Inr (command, g1)"
    and "\<not> popen_raises env"
    and "read_stream (child_lines env) = (evs, output_lines, False)"
    and "returncode env = 0"
  shows "media_attempt kind platform url base_command existing_files attempt env g =
           Inr (Return (resolve_new_files kind existing_files
                          (glob_after env (target_dir kind g) ''*'') (st_mtime env)),
                emit (map (\<lambda>f. PrintStatus success)
                        (resolve_new_files kind existing_files
                           (glob_after env (target_dir kind g) ''*'') (st_mtime env)))
                  (emit (Popen command # evs @ [Wait]) g1))"
  using assms by (simp add: media_attempt_def Let_def emit_def)

lemma attempt_command_okE:
  assumes "pool_ok g"
  obtains command g1 es where
    "attempt_command base_command platform attempt url g = Inr (command, g1)"
    "pool_ok g1" "gate_calls g1 = gate_calls g" "PROJECT_DIR g1 = PROJECT_DIR g"
    "log g1 = log g @ es" "\<forall>e\<in>set es. \<exists>d. e = MakeDirs d"
  using attempt_command_ok [OF assms, of base_command platform attempt url]
  by (elim exE conjE) (rule that)

lemma read_stream_not_killed:
  assumes "\<forall>l\<in>set lines. HardBlocked \<notin> set (line_signals l)"
  shows "\<exists>evs. read_stream lines = (evs, lines, False)"
  using assms
proof (induction lines)
  case Nil
  then show ?case by simp
next
  case (Cons line rest)
  then obtain evs where "read_stream rest = (evs, rest, False)" by auto
  with Cons.prems show ?case by (simp add: Let_def)
qed



section \<open>The retry loop\<close>

lemma attempt_loop_return:
  "attempt \<le> max_retries \<Longrightarrow> body attempt g = Inr (Return r, g') \<Longrightarrow>
   attempt_loop body attempt g = Inr (Returned r, g')"
  by (subst attempt_loop.simps) (simp del: attempt_loop.simps)

lemma attempt_loop_break:
  "attempt \<le> max_retries \<Longrightarrow> body attempt g = Inr (Break, g') \<Longrightarrow>
   attempt_loop body attempt g = Inr (FellThrough, g')"
  by (subst attempt_loop.simps) (simp del: attempt_loop.simps)

lemma attempt_loop_continue:
  "attempt \<le> max_retries \<Longrightarrow> body attempt g = Inr (Continue, g') \<Longrightarrow>
   attempt_loop body attempt g = attempt_loop body (Suc attempt) g'"
  by (subst attempt_loop.simps) (simp del: attempt_loop.simps)

lemma attempt_loop_end:
  "max_retries < attempt \<Longrightarrow> attempt_loop body attempt g = Inr (FellThrough, g)"
  by (subst attempt_loop.simps) (simp del: attempt_loop.simps)

lemma contains_append_right: "contains b k \<Longrightarrow> contains (a @ b) k"
proof -
  assume "contains b k"
  then obtain pre post where "b = pre @ k @ post" by (auto simp: contains_iff)
  then have "a @ b = (a @ pre) @ k @ post" by simp
  then show ?thesis unfolding contains_iff by (intro exI)
qed

lemma any_in_append_right: "any_in ks b \<Longrightarrow> any_in ks (a @ b)"
  by (auto simp: any_in_iff intro: contains_append_right)

lemma read_stream_blocked_output:
  "read_stream lines = (evs, output_lines, True) \<Longrightarrow>
   any_in block_phrases (lower (concat output_lines))"
proof (induction lines arbitrary: evs output_lines)
  case Nil
  then show ?case by simp
next
  case (Cons line rest)
  show ?case
  proof (cases "HardBlocked \<in> set (line_signals line)")
    case True
    then have "any_in block_phrases (lower line)"
      by (simp add: line_signals_def Let_def split: if_splits)
    moreover from True Cons.prems have "output_lines = [line]" by (simp add: Let_def)
    ultimately show ?thesis by simp
  next
    case False
    obtain evs' out' k' where rs: "read_stream rest = (evs', out', k')"
      by (cases "read_stream rest") auto
    with False Cons.prems have o: "output_lines = line # out'" and k: "k' = True"
      by (simp_all add: Let_def)
    from Cons.IH [of evs' out'] rs k have "any_in block_phrases (lower (concat out'))" by simp
    then have "any_in block_phrases (lower line @ lower (concat out'))"
      by (rule any_in_append_right)
    with o show ?thesis by (simp add: lower_def)
  qed
qed

lemma PROJECT_DIR_emit [simp]: "PROJECT_DIR (emit es g) = PROJECT_DIR g"
  by (simp add: emit_def)

lemma gate_opensE:
  assumes "pool_ok g"
  obtains e g' where "handle_manual_intervention env url g = (e, g')" "pool_ok g'"
    "gate_calls g' = gate_calls g + 1" "PROJECT_DIR g' = PROJECT_DIR g"
    "e = None \<longleftrightarrow> \<not> input_raises env"
proof -
  from get_next_ok [OF assms] obtain p g1 where
    gn: "get_next_chromium_profile g = Inr (p, g1)" and ok1: "pool_ok g1"
    and gc1: "gate_calls g1 = gate_calls g" and pd1: "PROJECT_DIR g1 = PROJECT_DIR g"
    by blast
  show ?thesis
  proof (cases "input_raises env")
    case True
    show ?thesis
    proof (rule that)
      show "handle_manual_intervention env url g
            = (Some EOFError, emit (Intervention p # (if browser_raises env then [PrintStatus error] else [])) g1)"
        using gn True by (simp add: handle_manual_intervention_def open_browser_for_login_def Let_def)
    qed (use True ok1 gc1 pd1 in \<open>simp_all add: gate_calls_emit\<close>)
  next
    case False
    show ?thesis
    proof (rule that)
      show "handle_manual_intervention env url g
            = (None, emit [PrintStatus processing, PrintStatus (if sync_raises env then warning else success)]
                 (emit (Intervention p # (if browser_raises env then [PrintStatus error] else [])) g1))"
        using gn False by (simp add: handle_manual_intervention_def open_browser_for_login_def Let_def)
    qed (use False ok1 gc1 pd1 in \<open>simp_all add: gate_calls_emit\<close>)
  qed
qed

lemma blocked_attempt:
  assumes ok: "pool_ok g" and hb: "hard_blocked_env env"
    and ns: "\<not> (attempt = 0 \<and> privacy_shortcut platform env)"
  obtains g' where
    "media_attempt kind platform url base_command existing_files attempt env g
       = Inr (if attempt < max_retries then Continue else Break, g')"
    "pool_ok g'" "PROJECT_DIR g' = PROJECT_DIR g"
    "gate_calls g' = gate_calls g + (if attempt < max_retries then 1 else 0)"
proof -
  obtain evs out killed where rs0: "read_stream (child_lines env) = (evs, out, killed)"
    by (cases "read_stream (child_lines env)") auto
  from hb read_stream_killed [OF rs0] have killed by (simp add: hard_blocked_env_def)
  with rs0 have rs: "read_stream (child_lines env) = (evs, out, True)" by simp
  have blk: "any_in block_phrases (lower (concat out))"
    by (rule read_stream_blocked_output [OF rs])
  have co: "captured_output env = concat out" by (simp add: captured_output_def rs)
  from hb have np: "\<not> popen_raises env" and ni: "\<not> input_raises env"
    by (simp_all add: hard_blocked_env_def)
  have fail: "returncode env \<noteq> 0 \<or> True" by simp
  from ns have na: "attempt \<noteq> 0 \<or> platform \<noteq> YouTube
      \<or> \<not> any_in privacy_phrases (lower (concat out))"
    by (auto simp: privacy_shortcut_def co)
  from ok obtain command g1 es1 where
    cmd: "attempt_command base_command platform attempt url g = Inr (command, g1)"
    and ok1: "pool_ok g1" and gc1: "gate_calls g1 = gate_calls g"
    and pd1: "PROJECT_DIR g1 = PROJECT_DIR g"
    and "log g1 = log g @ es1" and "\<forall>e\<in>set es1. \<exists>d. e = MakeDirs d"
    by (rule attempt_command_okE)
  let ?g2 = "emit (Popen command # evs @ [Wait]) g1"
  have ok2: "pool_ok ?g2" using ok1 by simp
  have gc2: "gate_calls ?g2 = gate_calls g"
    using gc1 filter_intervention_stream [OF rs] by (simp add: gate_calls_emit)
  have pd2: "PROJECT_DIR ?g2 = PROJECT_DIR g" using pd1 by simp
  have ma: "media_attempt kind platform url base_command existing_files attempt env g =
           Inr (on_failure [warning] error platform url attempt env (concat out) ?g2)"
    by (rule media_attempt_failure [OF cmd np rs fail])
  show ?thesis
  proof (cases "attempt < max_retries")
    case True
    from ok2 obtain e g3 where gate: "handle_manual_intervention env url ?g2 = (e, g3)"
      and ok3: "pool_ok g3" and gc3: "gate_calls g3 = gate_calls ?g2 + 1"
      and pd3: "PROJECT_DIR g3 = PROJECT_DIR ?g2" and e: "e = None \<longleftrightarrow> \<not> input_raises env"
      by (rule gate_opensE)
    from e ni have en: "e = None" by simp
    have "on_failure [warning] error platform url attempt env (concat out) ?g2 = (Continue, g3)"
      unfolding on_failure_gate [OF na blk True gate] using en by simp
    with ma True have m: "media_attempt kind platform url base_command existing_files attempt env g
       = Inr (if attempt < max_retries then Continue else Break, g3)" by simp
    have gc: "gate_calls g3 = gate_calls g + (if attempt < max_retries then 1 else 0)"
      using gc3 gc2 True by simp
    have pd: "PROJECT_DIR g3 = PROJECT_DIR g" using pd3 pd2 by simp
    show ?thesis by (rule that [OF m ok3 pd gc])
  next
    case False
    then have nb: "\<not> any_in block_phrases (lower (concat out)) \<or> \<not> attempt < max_retries"
      by simp
    have "on_failure [warning] error platform url attempt env (concat out) ?g2
          = (Break, emit [PrintStatus error] ?g2)"
      by (rule on_failure_final [OF na nb])
    with ma False have m: "media_attempt kind platform url base_command existing_files attempt env g
       = Inr (if attempt < max_retries then Continue else Break, emit [PrintStatus error] ?g2)"
      by simp
    have ok3: "pool_ok (emit [PrintStatus error] ?g2)" using ok1 by simp
    have pd: "PROJECT_DIR (emit [PrintStatus error] ?g2) = PROJECT_DIR g"
      using pd1 by simp
    have gc: "gate_calls (emit [PrintStatus error] ?g2)
          = gate_calls g + (if attempt < max_retries then 1 else 0)"
      using gc2 False by (simp add: gate_calls_emit)
    show ?thesis by (rule that [OF m ok3 pd gc])
  qed
qed

lemma shortcut_attempt:
  assumes ok: "pool_ok g" and hb: "hard_blocked_env env"
    and sc: "privacy_shortcut platform env"
  obtains g' where
    "media_attempt kind platform url base_command existing_files 0 env g = Inr (Continue, g')"
    "pool_ok g'" "PROJECT_DIR g' = PROJECT_DIR g" "gate_calls g' = gate_calls g"
proof -
  obtain evs out killed where rs0: "read_stream (child_lines env) = (evs, out, killed)"
    by (cases "read_stream (child_lines env)") auto
  from hb read_stream_killed [OF rs0] have killed by (simp add: hard_blocked_env_def)
  with rs0 have rs: "read_stream (child_lines env) = (evs, out, True)" by simp
  have co: "captured_output env = concat out" by (simp add: captured_output_def rs)
  from hb have np: "\<not> popen_raises env" by (simp add: hard_blocked_env_def)
  have fail: "returncode env \<noteq> 0 \<or> True" by simp
  from sc have yt: "platform = YouTube" and priv: "any_in privacy_phrases (lower (concat out))"
    by (simp_all add: privacy_shortcut_def co)
  from ok obtain command g1 es1 where
    cmd: "attempt_command base_command platform 0 url g = Inr (command, g1)"
    and ok1: "pool_ok g1" and gc1: "gate_calls g1 = gate_calls g"
    and pd1: "PROJECT_DIR g1 = PROJECT_DIR g"
    and "log g1 = log g @ es1" and "\<forall>e\<in>set es1. \<exists>d. e = MakeDirs d"
    by (rule attempt_command_okE)
  let ?g2 = "emit (Popen command # evs @ [Wait]) g1"
  let ?g3 = "emit (map PrintStatus [warning]) ?g2"
  have ma: "media_attempt kind platform url base_command existing_files 0 env g =
           Inr (on_failure [warning] error platform url 0 env (concat out) ?g2)"
    by (rule media_attempt_failure [OF cmd np rs fail])
  have "on_failure [warning] error platform url 0 env (concat out) ?g2 = (Continue, ?g3)"
    unfolding yt by (rule on_failure_shortcut [OF priv])
  with ma have m: "media_attempt kind platform url base_command existing_files 0 env g
       = Inr (Continue, ?g3)" by simp
  have ok3: "pool_ok ?g3" using ok1 by simp
  have pd: "PROJECT_DIR ?g3 = PROJECT_DIR g" using pd1 by simp
  have gc: "gate_calls ?g3 = gate_calls g"
    using gc1 filter_intervention_stream [OF rs] by (simp add: gate_calls_emit)
  show ?thesis by (rule that [OF m ok3 pd gc])
qed

lemma download_media_exit_loop:
  "download_media_exit kind E url extra_options safe_mode g =
     media_loop kind (detect_platform url) url (base_command_of kind g extra_options safe_mode)
       (remdups (glob_before E (target_dir kind g) ''*'')) E 0 (emit [PrintStatus processing] g)"
  by (simp add: download_media_exit_def media_loop_def Let_def)

lemma media_loop_continue:
  assumes "attempt \<le> max_retries"
    and "media_attempt kind platform url base_command existing_files attempt (attempts E attempt) g
         = Inr (Continue, g')"
  shows "media_loop kind platform url base_command existing_files E attempt g
         = media_loop kind platform url base_command existing_files E (Suc attempt) g'"
  unfolding media_loop_def using assms by (rule attempt_loop_continue)

lemma media_loop_break:
  assumes "attempt \<le> max_retries"
    and "media_attempt kind platform url base_command existing_files attempt (attempts E attempt) g
         = Inr (Break, g')"
  shows "media_loop kind platform url base_command existing_files E attempt g = Inr (FellThrough, g')"
  unfolding media_loop_def using assms by (rule attempt_loop_break)

lemma media_loop_return:
  assumes "attempt \<le> max_retries"
    and "media_attempt kind platform url base_command existing_files attempt (attempts E attempt) g
         = Inr (Return r, g')"
  shows "media_loop kind platform url base_command existing_files E attempt g = Inr (Returned r, g')"
  unfolding media_loop_def using assms by (rule attempt_loop_return)

lemma blocked_prefix:
  assumes "n - a = k" and "a \<le> n" and "n \<le> max_retries" and "pool_ok g"
    and "\<forall>i. a \<le> i \<and> i < n \<longrightarrow>
           hard_blocked_env (attempts E i) \<and> \<not> (i = 0 \<and> privacy_shortcut platform (attempts E i))"
  shows "\<exists>g'. media_loop kind platform url base_command existing_files E a g
               = media_loop kind platform url base_command existing_files E n g'
             \<and> pool_ok g' \<and> PROJECT_DIR g' = PROJECT_DIR g
             \<and> gate_calls g' = gate_calls g + k"
  using assms
proof (induction k arbitrary: a g)
  case 0
  then have "a = n" by simp
  with "0.prems"(4) show ?case by auto
next
  case (Suc k)
  then have lt: "a < n" and le: "a \<le> max_retries" and am: "a < max_retries" by simp_all
  from Suc.prems(5) lt have hb: "hard_blocked_env (attempts E a)"
    and ns: "\<not> (a = 0 \<and> privacy_shortcut platform (attempts E a))" by simp_all
  from Suc.prems(4) hb ns obtain g1 where
    m: "media_attempt kind platform url base_command existing_files a (attempts E a) g
          = Inr (if a < max_retries then Continue else Break, g1)"
    and ok1: "pool_ok g1" and pd1: "PROJECT_DIR g1 = PROJECT_DIR g"
    and gc1: "gate_calls g1 = gate_calls g + (if a < max_retries then 1 else 0)"
    by (rule blocked_attempt)
  from m am have m': "media_attempt kind platform url base_command existing_files a (attempts E a) g
          = Inr (Continue, g1)" by simp
  have step: "media_loop kind platform url base_command existing_files E a g
         = media_loop kind platform url base_command existing_files E (Suc a) g1"
    by (rule media_loop_continue [OF le m'])
  have k: "n - Suc a = k" using Suc.prems(1) by simp
  have sa: "Suc a \<le> n" using lt by simp
  have rest: "\<forall>i. Suc a \<le> i \<and> i < n \<longrightarrow>
           hard_blocked_env (attempts E i) \<and> \<not> (i = 0 \<and> privacy_shortcut platform (attempts E i))"
    using Suc.prems(5) by simp
  from Suc.IH [OF k sa Suc.prems(3) ok1 rest] obtain g' where
    l: "media_loop kind platform url base_command existing_files E (Suc a) g1
               = media_loop kind platform url base_command existing_files E n g'"
    and ok': "pool_ok g'" and pd': "PROJECT_DIR g' = PROJECT_DIR g1"
    and gc': "gate_calls g' = gate_calls g1 + k"
    by (elim exE conjE)
  have "media_loop kind platform url base_command existing_files E a g
               = media_loop kind platform url base_command existing_files E n g'"
    using step l by simp
  moreover have "PROJECT_DIR g' = PROJECT_DIR g" using pd' pd1 by simp
  moreover have "gate_calls g' = gate_calls g + Suc k" using gc' gc1 am by simp
  ultimately show ?case using ok' by (intro exI [of _ g']) simp
qed

lemma blocked_to_the_end:
  assumes "a \<le> max_retries" and "pool_ok g"
    and "\<forall>i. a \<le> i \<and> i \<le> max_retries \<longrightarrow>
           hard_blocked_env (attempts E i) \<and> \<not> (i = 0 \<and> privacy_shortcut platform (attempts E i))"
  shows "\<exists>g'. media_loop kind platform url base_command existing_files E a g = Inr (FellThrough, g')
             \<and> gate_calls g' = gate_calls g + (max_retries - a)"
proof -
  have pre: "\<forall>i. a \<le> i \<and> i < max_retries \<longrightarrow>
           hard_blocked_env (attempts E i) \<and> \<not> (i = 0 \<and> privacy_shortcut platform (attempts E i))"
    using assms(3) by simp
  from blocked_prefix [where kind=kind and url=url and base_command=base_command and existing_files=existing_files, OF refl assms(1) order_refl assms(2) pre] obtain g1 where
    l: "media_loop kind platform url base_command existing_files E a g
               = media_loop kind platform url base_command existing_files E max_retries g1"
    and ok1: "pool_ok g1" and gc1: "gate_calls g1 = gate_calls g + (max_retries - a)"
    by (elim exE conjE)
  from assms(1,3) have hb: "hard_blocked_env (attempts E max_retries)"
    and ns: "\<not> (max_retries = 0 \<and> privacy_shortcut platform (attempts E max_retries))"
    by (simp_all add: max_retries_def)
  from ok1 hb ns obtain g2 where
    m: "media_attempt kind platform url base_command existing_files max_retries (attempts E max_retries) g1
          = Inr (if max_retries < max_retries then Continue else Break, g2)"
    and gc2: "gate_calls g2 = gate_calls g1 + (if max_retries < max_retries then 1 else 0)"
    by (rule blocked_attempt)
  from m have m': "media_attempt kind platform url base_command existing_files max_retries
          (attempts E max_retries) g1 = Inr (Break, g2)" by simp
  have "media_loop kind platform url base_command existing_files E max_retries g1 = Inr (FellThrough, g2)"
    by (rule media_loop_break [OF order_refl m'])
  with l have "media_loop kind platform url base_command existing_files E a g = Inr (FellThrough, g2)"
    by simp
  moreover have "gate_calls g2 = gate_calls g + (max_retries - a)" using gc2 gc1 by simp
  ultimately show ?thesis by (intro exI [of _ g2]) simp
qed

lemma all_blocked_run:
  assumes "pool_ok g"
    and "\<forall>i\<le>max_retries. hard_blocked_env (attempts E i)"
  shows "\<exists>g'. media_loop kind platform url base_command existing_files E 0 g = Inr (FellThrough, g')
             \<and> gate_calls g' = gate_calls g
                  + (if privacy_shortcut platform (attempts E 0) then 9 else 10)"
proof (cases "privacy_shortcut platform (attempts E 0)")
  case True
  from assms(2) have hb0: "hard_blocked_env (attempts E 0)" by simp
  from assms(1) hb0 True obtain g1 where
    m: "media_attempt kind platform url base_command existing_files 0 (attempts E 0) g = Inr (Continue, g1)"
    and ok1: "pool_ok g1" and gc1: "gate_calls g1 = gate_calls g"
    by (rule shortcut_attempt)
  have step: "media_loop kind platform url base_command existing_files E 0 g
         = media_loop kind platform url base_command existing_files E (Suc 0) g1"
    by (rule media_loop_continue [OF _ m]) simp
  have rest: "\<forall>i. Suc 0 \<le> i \<and> i \<le> max_retries \<longrightarrow>
           hard_blocked_env (attempts E i) \<and> \<not> (i = 0 \<and> privacy_shortcut platform (attempts E i))"
    using assms(2) by simp
  have le: "Suc 0 \<le> max_retries" by (simp add: max_retries_def)
  from blocked_to_the_end [where kind=kind and url=url and base_command=base_command and existing_files=existing_files, OF le ok1 rest] obtain g' where
    l: "media_loop kind platform url base_command existing_files E (Suc 0) g1 = Inr (FellThrough, g')"
    and gc': "gate_calls g' = gate_calls g1 + (max_retries - Suc 0)"
    by (elim exE conjE)
  have "media_loop kind platform url base_command existing_files E 0 g = Inr (FellThrough, g')"
    using step l by simp
  moreover have "gate_calls g' = gate_calls g + 9" using gc' gc1 by (simp add: max_retries_def)
  ultimately show ?thesis using True by (intro exI [of _ g']) simp
next
  case False
  have all: "\<forall>i. 0 \<le> i \<and> i \<le> max_retries \<longrightarrow>
           hard_blocked_env (attempts E i) \<and> \<not> (i = 0 \<and> privacy_shortcut platform (attempts E i))"
    using assms(2) False by auto
  have le: "0 \<le> max_retries" by simp
  from blocked_to_the_end [where kind=kind and url=url and base_command=base_command and existing_files=existing_files, OF le assms(1) all] obtain g' where
    l: "media_loop kind platform url base_command existing_files E 0 g = Inr (FellThrough, g')"
    and gc': "gate_calls g' = gate_calls g + (max_retries - 0)"
    by (elim exE conjE)
  have "gate_calls g' = gate_calls g + 10" using gc' by (simp add: max_retries_def)
  with l False show ?thesis by (intro exI [of _ g']) simp
qed

section \<open>Runs that end without a result\<close>

lemma empty_success_attempt:
  assumes ok: "pool_ok g" and np: "\<not> popen_raises env" and rc: "returncode env = 0"
    and hb: "\<forall>l\<in>set (child_lines env). HardBlocked \<notin> set (line_signals l)"
    and emp: "resolve_new_files kind existing_files (glob_after env (target_dir kind g) ''*'')
                (st_mtime env) = []"
  obtains g' where
    "media_attempt kind platform url base_command existing_files attempt env g = Inr (Return [], g')"
    "gate_calls g' = gate_calls g"
proof -
  from ok obtain command g1 es1 where
    cmd: "attempt_command base_command platform attempt url g = Inr (command, g1)"
    and "pool_ok g1" and gc1: "gate_calls g1 = gate_calls g" and "PROJECT_DIR g1 = PROJECT_DIR g"
    and "log g1 = log g @ es1" and "\<forall>e\<in>set es1. \<exists>d. e = MakeDirs d"
    by (rule attempt_command_okE)
  from read_stream_not_killed [OF hb] obtain evs where
    rs: "read_stream (child_lines env) = (evs, child_lines env, False)" ..
  let ?g' = "emit (Popen command # evs @ [Wait]) g1"
  have r: "media_attempt kind platform url base_command existing_files attempt env g
                  = Inr (Return [], ?g')"
    unfolding media_attempt_success [OF cmd np rs rc] emp by (simp add: emit_def)
  have gc: "gate_calls ?g' = gate_calls g"
    using gc1 filter_intervention_stream [OF rs] by (simp add: gate_calls_emit)
  show ?thesis by (rule that [OF r gc])
qed

lemma fatal_attempt:
  assumes ok: "pool_ok g" and np: "\<not> popen_raises env" and rc: "returncode env \<noteq> 0"
    and npriv: "\<not> any_in privacy_phrases (lower (captured_output env))"
    and nblk: "\<not> any_in block_phrases (lower (captured_output env))"
  obtains g' where
    "media_attempt kind platform url base_command existing_files attempt env g = Inr (Break, g')"
    "gate_calls g' = gate_calls g"
proof -
  obtain evs out killed where rs: "read_stream (child_lines env) = (evs, out, killed)"
    by (cases "read_stream (child_lines env)") auto
  have co: "captured_output env = concat out" by (simp add: captured_output_def rs)
  from rc have fail: "returncode env \<noteq> 0 \<or> killed" by simp
  from ok obtain command g1 es1 where
    cmd: "attempt_command base_command platform attempt url g = Inr (command, g1)"
    and "pool_ok g1" and gc1: "gate_calls g1 = gate_calls g" and "PROJECT_DIR g1 = PROJECT_DIR g"
    and "log g1 = log g @ es1" and "\<forall>e\<in>set es1. \<exists>d. e = MakeDirs d"
    by (rule attempt_command_okE)
  let ?g2 = "emit (Popen command # evs @ [Wait]) g1"
  from npriv have na: "attempt \<noteq> 0 \<or> platform \<noteq> YouTube
      \<or> \<not> any_in privacy_phrases (lower (concat out))" by (simp add: co)
  from nblk have nb: "\<not> any_in block_phrases (lower (concat out)) \<or> \<not> attempt < max_retries"
    by (simp add: co)
  have "media_attempt kind platform url base_command existing_files attempt env g =
           Inr (on_failure [warning] error platform url attempt env (concat out) ?g2)"
    by (rule media_attempt_failure [OF cmd np rs fail])
  then have r: "media_attempt kind platform url base_command existing_files attempt env g =
           Inr (Break, emit [PrintStatus error] ?g2)"
    unfolding on_failure_final [OF na nb] .
  have gc: "gate_calls (emit [PrintStatus error] ?g2) = gate_calls g"
    using gc1 filter_intervention_stream [OF rs] by (simp add: gate_calls_emit)
  show ?thesis by (rule that [OF r gc])
qed

lemma pool_ok_start: "pool_ok (emit [PrintStatus processing] g) = pool_ok g"
  by simp

lemma gate_calls_start: "gate_calls (emit [PrintStatus processing] g) = gate_calls g"
  by (simp add: gate_calls_emit)

lemma target_dir_emit [simp]: "target_dir kind (emit es g) = target_dir kind g"
  by (simp add: target_dir_def)

text \<open>
  Claim C2, as amended. When every attempt of a goal, attempt 0 and the ten retries, is
  hard-blocked, the loop falls through to the final \<open>return []\<close>. The gate is opened once
  for each of the attempts 0 to 9, hence ten times, unless the privacy shortcut takes the
  first attempt: on YouTube, when the output of attempt 0 contains a privacy phrase (as
  \<open>sign in to confirm\<close> does), attempt 0 goes on without the gate and the gate is opened
  nine times.
\<close>

theorem all_attempts_blocked:
  assumes "pool_ok g" and "\<forall>i\<le>max_retries. hard_blocked_env (attempts E i)"
  shows "\<exists>g'. download_media_exit kind E url extra_options safe_mode g = Inr (FellThrough, g')
             \<and> gate_calls g' = gate_calls g
                  + (if privacy_shortcut (detect_platform url) (attempts E 0) then 9 else 10)"
proof -
  have ok0: "pool_ok (emit [PrintStatus processing] g)" using assms(1) by simp
  from all_blocked_run [OF ok0 assms(2),
      where kind=kind and platform="detect_platform url" and url=url
        and base_command="base_command_of kind g extra_options safe_mode"
        and existing_files="remdups (glob_before E (target_dir kind g) ''*'')"]
  show ?thesis
    unfolding download_media_exit_loop gate_calls_start .
qed

lemma hard_blocked_env_captcha: "hard_blocked_env env_captcha"
proof -
  have "HardBlocked \<in> set (line_signals ''ERROR: [TikTok] 1: captcha required'')" by code_simp
  then show ?thesis by (simp add: hard_blocked_env_def env_captcha_def)
qed

lemma hard_blocked_env_sign_in: "hard_blocked_env env_sign_in"
proof -
  have "HardBlocked \<in> set (line_signals ''ERROR: [youtube] x: Sign in to confirm your age'')"
    by code_simp
  then show ?thesis by (simp add: hard_blocked_env_def env_sign_in_def)
qed

lemma privacy_shortcut_sign_in:
  "privacy_shortcut (detect_platform ''https://www.youtube.com/watch?v=x'') env_sign_in"
proof -
  let ?l = "''ERROR: [youtube] x: Sign in to confirm your age''"
  have p: "detect_platform ''https://www.youtube.com/watch?v=x'' = YouTube" by code_simp
  have rs: "read_stream [?l] = ([ReadLine ?l, Terminate], [?l], True)" by code_simp
  have co: "captured_output env_sign_in = ?l"
    by (simp add: captured_output_def env_sign_in_def rs del: read_stream.simps)
  have "any_in privacy_phrases (lower ?l)" by code_simp
  with p co show ?thesis by (simp add: privacy_shortcut_def)
qed

lemma tiktok_url: "detect_platform ''https://www.tiktok.com/@u/video/1'' = TikTok"
  by code_simp

lemma gate_calls_pool3: "gate_calls pool3 = 0"
  by (simp add: gate_calls_def pool3_def)

lemma pool_ok_pool3: "pool_ok pool3"
  by (simp add: pool_ok_def pool3_def)

theorem all_attempts_blocked_witness:
  "gate_count (download_media_exit Audio E_captcha ''https://www.tiktok.com/@u/video/1'' None False pool3)
     = Some (FellThrough, 10)"
proof -
  have hb: "\<forall>i\<le>max_retries. hard_blocked_env (attempts E_captcha i)"
    using hard_blocked_env_captcha by (simp add: E_captcha_def)
  have ns: "\<not> privacy_shortcut (detect_platform ''https://www.tiktok.com/@u/video/1'') (attempts E_captcha 0)"
    by (simp add: tiktok_url privacy_shortcut_def)
  from all_attempts_blocked [OF pool_ok_pool3 hb, of Audio "''https://www.tiktok.com/@u/video/1''" None False]
  obtain g' where
    "download_media_exit Audio E_captcha ''https://www.tiktok.com/@u/video/1'' None False pool3
       = Inr (FellThrough, g')"
    and "gate_calls g' = gate_calls pool3
           + (if privacy_shortcut (detect_platform ''https://www.tiktok.com/@u/video/1'') (attempts E_captcha 0)
              then 9 else 10)"
    by (elim exE conjE)
  with ns show ?thesis by (simp add: gate_count_def gate_calls_pool3)
qed

text \<open>
  The claim as stated fails. On YouTube, with the sign-in wall on every attempt, the goal
  fails after nine gate calls, not ten. And ten blocked attempts do not end the goal: an
  eleventh attempt follows, and when it runs clean the goal ends with a result.
\<close>

theorem ten_blocked_attempts_counterexample:
  "hard_blocked_env env_sign_in
   \<and> gate_count (download_media_exit Video E_sign_in ''https://www.youtube.com/watch?v=x'' None False pool3)
       = Some (FellThrough, 9)
   \<and> hard_blocked_env env_captcha
   \<and> gate_count (download_media_exit Video E_ten_blocked ''https://www.tiktok.com/@u/video/1'' None False pool3)
       = Some (Returned [], 10)"
proof -
  let ?g0 = "emit [PrintStatus processing] pool3"
  have ok0: "pool_ok ?g0" using pool_ok_pool3 by simp
  have gc0: "gate_calls ?g0 = 0" by (simp add: gate_calls_start gate_calls_pool3)
  have hb1: "\<forall>i\<le>max_retries. hard_blocked_env (attempts E_sign_in i)"
    using hard_blocked_env_sign_in by (simp add: E_sign_in_def)
  have sc: "privacy_shortcut (detect_platform ''https://www.youtube.com/watch?v=x'') (attempts E_sign_in 0)"
    using privacy_shortcut_sign_in by (simp add: E_sign_in_def)
  from all_blocked_run [OF ok0 hb1, where kind=Video
        and platform="detect_platform ''https://www.youtube.com/watch?v=x''"
        and url="''https://www.youtube.com/watch?v=x''"
        and base_command="base_command_of Video pool3 None False"
        and existing_files="remdups (glob_before E_sign_in (target_dir Video pool3) ''*'')"]
  obtain g1 where
    l1: "media_loop Video (detect_platform ''https://www.youtube.com/watch?v=x'')
           ''https://www.youtube.com/watch?v=x'' (base_command_of Video pool3 None False)
           (remdups (glob_before E_sign_in (target_dir Video pool3) ''*'')) E_sign_in 0 ?g0
         = Inr (FellThrough, g1)"
    and g1: "gate_calls g1 = gate_calls ?g0
           + (if privacy_shortcut (detect_platform ''https://www.youtube.com/watch?v=x'') (attempts E_sign_in 0)
              then 9 else 10)"
    by (elim exE conjE)
  from l1 g1 sc gc0 have A: "gate_count (download_media_exit Video E_sign_in
        ''https://www.youtube.com/watch?v=x'' None False pool3) = Some (FellThrough, 9)"
    by (simp add: download_media_exit_loop gate_count_def)
  have pre: "\<forall>i. 0 \<le> i \<and> i < max_retries \<longrightarrow>
           hard_blocked_env (attempts E_ten_blocked i)
           \<and> \<not> (i = 0 \<and> privacy_shortcut TikTok (attempts E_ten_blocked i))"
    using hard_blocked_env_captcha
    by (simp add: E_ten_blocked_def max_retries_def privacy_shortcut_def)
  have le0: "0 \<le> max_retries" by simp
  from blocked_prefix [where kind=Video and url="''https://www.tiktok.com/@u/video/1''"
        and base_command="base_command_of Video pool3 None False"
        and existing_files="remdups (glob_before E_ten_blocked (target_dir Video pool3) ''*'')",
        OF refl le0 order_refl ok0 pre]
  obtain g2 where
    l2: "media_loop Video TikTok ''https://www.tiktok.com/@u/video/1''
           (base_command_of Video pool3 None False)
           (remdups (glob_before E_ten_blocked (target_dir Video pool3) ''*'')) E_ten_blocked 0 ?g0
         = media_loop Video TikTok ''https://www.tiktok.com/@u/video/1''
           (base_command_of Video pool3 None False)
           (remdups (glob_before E_ten_blocked (target_dir Video pool3) ''*'')) E_ten_blocked max_retries g2"
    and ok2: "pool_ok g2" and pd2: "PROJECT_DIR g2 = PROJECT_DIR ?g0"
    and gc2: "gate_calls g2 = gate_calls ?g0 + (max_retries - 0)"
    by (elim exE conjE)
  have last: "attempts E_ten_blocked max_retries = env_nothing_new"
    by (simp add: E_ten_blocked_def max_retries_def)
  have ex: "remdups (glob_before E_ten_blocked (target_dir Video pool3) ''*'') = [''/p/downloads/a.mp4'']"
    by (simp add: E_ten_blocked_def)
  have gl: "glob_after env_nothing_new (target_dir Video g2) ''*'' = [''/p/downloads/a.mp4'']"
    by (simp add: env_nothing_new_def)
  have "resolve_new_files Video [''/p/downloads/a.mp4''] [''/p/downloads/a.mp4'']
          (st_mtime env_nothing_new) = []"
    by (simp add: resolve_new_files_def)
  with gl have emp: "resolve_new_files Video [''/p/downloads/a.mp4'']
          (glob_after env_nothing_new (target_dir Video g2) ''*'') (st_mtime env_nothing_new) = []"
    by simp
  have np: "\<not> popen_raises env_nothing_new" and rc: "returncode env_nothing_new = 0"
    by (simp_all add: env_nothing_new_def)
  have nb: "\<forall>l\<in>set (child_lines env_nothing_new). HardBlocked \<notin> set (line_signals l)"
  proof -
    have "HardBlocked \<notin> set (line_signals ''[download] a.mp4 has already been downloaded'')"
      by code_simp
    then show ?thesis by (simp add: env_nothing_new_def)
  qed
  from ok2 np rc nb emp obtain g3 where
    m3: "media_attempt Video TikTok ''https://www.tiktok.com/@u/video/1''
           (base_command_of Video pool3 None False) [''/p/downloads/a.mp4''] max_retries
           env_nothing_new g2 = Inr (Return [], g3)"
    and gc3: "gate_calls g3 = gate_calls g2"
    by (rule empty_success_attempt)
  from m3 have m3': "media_attempt Video TikTok ''https://www.tiktok.com/@u/video/1''
           (base_command_of Video pool3 None False) [''/p/downloads/a.mp4''] max_retries
           (attempts E_ten_blocked max_retries) g2 = Inr (Return [], g3)"
    unfolding last .
  have l3: "media_loop Video TikTok ''https://www.tiktok.com/@u/video/1''
           (base_command_of Video pool3 None False) [''/p/downloads/a.mp4''] E_ten_blocked max_retries g2
         = Inr (Returned [], g3)"
    by (rule media_loop_return [OF order_refl m3'])
  from l2 l3 have "media_loop Video TikTok ''https://www.tiktok.com/@u/video/1''
           (base_command_of Video pool3 None False) [''/p/downloads/a.mp4''] E_ten_blocked 0 ?g0
         = Inr (Returned [], g3)"
    unfolding ex by simp
  moreover have "gate_calls g3 = 10" using gc3 gc2 gc0 by (simp add: max_retries_def)
  ultimately have B: "gate_count (download_media_exit Video E_ten_blocked
        ''https://www.tiktok.com/@u/video/1'' None False pool3) = Some (Returned [], 10)"
    by (simp add: download_media_exit_loop gate_count_def tiktok_url ex)
  from hard_blocked_env_sign_in A hard_blocked_env_captcha B show ?thesis by (intro conjI)
qed

section \<open>What the caller can tell from the returned list\<close>

lemma download_media_direct_exit:
  "download_media_exit kind E url extra_options safe_mode g = Inr (x, g') \<Longrightarrow>
   download_media_direct kind E url extra_options safe_mode g = Inr (exit_value x, g')"
  by (simp add: download_media_direct_def)

text \<open>
  Claim C8. Take three worlds for the same call: in the first, attempt 0 ends with status
  0, unblocked, and leaves no new matching file; in the second, attempt 0 fails with an
  output that contains neither a privacy phrase nor a block phrase; in the third, every
  attempt is hard-blocked. The first run leaves through the \<open>return\<close> inside the loop,
  the other two through the \<open>return []\<close> after it, and all three hand the empty list to
  the caller. This holds for the video and for the audio download.
\<close>

theorem empty_list_conflates_failure:
  assumes "pool_ok g"
    and "\<not> popen_raises (attempts E1 0)" and "returncode (attempts E1 0) = 0"
    and "\<forall>l\<in>set (child_lines (attempts E1 0)). HardBlocked \<notin> set (line_signals l)"
    and "resolve_new_files kind (remdups (glob_before E1 (target_dir kind g) ''*''))
           (glob_after (attempts E1 0) (target_dir kind g) ''*'') (st_mtime (attempts E1 0)) = []"
    and "\<not> popen_raises (attempts E2 0)" and "returncode (attempts E2 0) \<noteq> 0"
    and "\<not> any_in privacy_phrases (lower (captured_output (attempts E2 0)))"
    and "\<not> any_in block_phrases (lower (captured_output (attempts E2 0)))"
    and "\<forall>i\<le>max_retries. hard_blocked_env (attempts E3 i)"
  shows "\<exists>g1 g2 g3.
           download_media_exit kind E1 url extra_options safe_mode g = Inr (Returned [], g1)
         \<and> download_media_exit kind E2 url extra_options safe_mode g = Inr (FellThrough, g2)
         \<and> download_media_exit kind E3 url extra_options safe_mode g = Inr (FellThrough, g3)
         \<and> download_media_direct kind E1 url extra_options safe_mode g = Inr ([], g1)
         \<and> download_media_direct kind E2 url extra_options safe_mode g = Inr ([], g2)
         \<and> download_media_direct kind E3 url extra_options safe_mode g = Inr ([], g3)
         \<and> download_video_direct = download_media_direct Video
         \<and> download_audio_direct = download_media_direct Audio"
proof -
  let ?g0 = "emit [PrintStatus processing] g"
  let ?p = "detect_platform url"
  let ?b = "base_command_of kind g extra_options safe_mode"
  have ok0: "pool_ok ?g0" using assms(1) by simp
  have emp: "resolve_new_files kind (remdups (glob_before E1 (target_dir kind g) ''*''))
           (glob_after (attempts E1 0) (target_dir kind ?g0) ''*'') (st_mtime (attempts E1 0)) = []"
    using assms(5) by simp
  from ok0 assms(2,3,4) emp obtain g1 where
    m1: "media_attempt kind ?p url ?b (remdups (glob_before E1 (target_dir kind g) ''*'')) 0
           (attempts E1 0) ?g0 = Inr (Return [], g1)"
    by (rule empty_success_attempt)
  have le: "0 \<le> max_retries" by simp
  have x1: "download_media_exit kind E1 url extra_options safe_mode g = Inr (Returned [], g1)"
    unfolding download_media_exit_loop by (rule media_loop_return [OF le m1])
  from ok0 assms(6,7,8,9) obtain g2 where
    m2: "media_attempt kind ?p url ?b (remdups (glob_before E2 (target_dir kind g) ''*'')) 0
           (attempts E2 0) ?g0 = Inr (Break, g2)"
    by (rule fatal_attempt)
  have x2: "download_media_exit kind E2 url extra_options safe_mode g = Inr (FellThrough, g2)"
    unfolding download_media_exit_loop by (rule media_loop_break [OF le m2])
  from all_blocked_run [OF ok0 assms(10), where kind=kind and platform="?p" and url=url
        and base_command="?b"
        and existing_files="remdups (glob_before E3 (target_dir kind g) ''*'')"]
  obtain g3 where
    "media_loop kind ?p url ?b (remdups (glob_before E3 (target_dir kind g) ''*'')) E3 0 ?g0
       = Inr (FellThrough, g3)"
    by (elim exE conjE)
  then have x3: "download_media_exit kind E3 url extra_options safe_mode g = Inr (FellThrough, g3)"
    unfolding download_media_exit_loop .
  have d1: "download_media_direct kind E1 url extra_options safe_mode g = Inr ([], g1)"
    using download_media_direct_exit [OF x1] by (simp add: exit_value_def)
  have d2: "download_media_direct kind E2 url extra_options safe_mode g = Inr ([], g2)"
    using download_media_direct_exit [OF x2] by (simp add: exit_value_def)
  have d3: "download_media_direct kind E3 url extra_options safe_mode g = Inr ([], g3)"
    using download_media_direct_exit [OF x3] by (simp add: exit_value_def)
  have v: "download_video_direct = download_media_direct Video"
    by (simp add: download_video_direct_def)
  have a: "download_audio_direct = download_media_direct Audio"
    by (simp add: download_audio_direct_def)
  show ?thesis
    by (intro exI conjI) (rule x1, rule x2, rule x3, rule d1, rule d2, rule d3, rule v, rule a)
qed

theorem empty_list_conflates_failure_witness:
  "\<exists>g1 g2 g3.
      download_video_direct E_nothing_new ''https://www.tiktok.com/@u/video/1'' None False pool3
        = Inr ([], g1)
    \<and> download_media_exit Video E_nothing_new ''https://www.tiktok.com/@u/video/1'' None False pool3
        = Inr (Returned [], g1)
    \<and> download_video_direct E_unavailable ''https://www.tiktok.com/@u/video/1'' None False pool3
        = Inr ([], g2)
    \<and> download_media_exit Video E_unavailable ''https://www.tiktok.com/@u/video/1'' None False pool3
        = Inr (FellThrough, g2)
    \<and> download_video_direct E_captcha ''https://www.tiktok.com/@u/video/1'' None False pool3
        = Inr ([], g3)"
proof -
  let ?u = "''https://www.tiktok.com/@u/video/1''"
  have np1: "\<not> popen_raises (attempts E_nothing_new 0)"
    and rc1: "returncode (attempts E_nothing_new 0) = 0"
    by (simp_all add: E_nothing_new_def env_nothing_new_def)
  have nb1: "\<forall>l\<in>set (child_lines (attempts E_nothing_new 0)). HardBlocked \<notin> set (line_signals l)"
  proof -
    have "HardBlocked \<notin> set (line_signals ''[download] a.mp4 has already been downloaded'')"
      by code_simp
    then show ?thesis by (simp add: E_nothing_new_def env_nothing_new_def)
  qed
  have emp: "resolve_new_files Video (remdups (glob_before E_nothing_new (target_dir Video pool3) ''*''))
           (glob_after (attempts E_nothing_new 0) (target_dir Video pool3) ''*'')
           (st_mtime (attempts E_nothing_new 0)) = []"
    by (simp add: E_nothing_new_def env_nothing_new_def resolve_new_files_def)
  have np2: "\<not> popen_raises (attempts E_unavailable 0)"
    and rc2: "returncode (attempts E_unavailable 0) \<noteq> 0"
    by (simp_all add: E_unavailable_def env_unavailable_def)
  let ?l = "''ERROR: [TikTok] 1: Video not available''"
  have rs: "read_stream [?l] = ([ReadLine ?l], [?l], False)" by code_simp
  have co: "captured_output (attempts E_unavailable 0) = ?l"
    by (simp add: captured_output_def E_unavailable_def env_unavailable_def rs
        del: read_stream.simps)
  have "\<not> any_in privacy_phrases (lower ?l)" by code_simp
  with co have npr: "\<not> any_in privacy_phrases (lower (captured_output (attempts E_unavailable 0)))"
    by simp
  have "\<not> any_in block_phrases (lower ?l)" by code_simp
  with co have nbl: "\<not> any_in block_phrases (lower (captured_output (attempts E_unavailable 0)))"
    by simp
  have hb3: "\<forall>i\<le>max_retries. hard_blocked_env (attempts E_captcha i)"
    using hard_blocked_env_captcha by (simp add: E_captcha_def)
  from empty_list_conflates_failure [OF pool_ok_pool3 np1 rc1 nb1 emp np2 rc2 npr nbl hb3,
      of ?u None False]
  obtain g1 g2 g3 where
    "download_media_exit Video E_nothing_new ?u None False pool3 = Inr (Returned [], g1)"
    "download_media_exit Video E_unavailable ?u None False pool3 = Inr (FellThrough, g2)"
    "download_media_direct Video E_nothing_new ?u None False pool3 = Inr ([], g1)"
    "download_media_direct Video E_unavailable ?u None False pool3 = Inr ([], g2)"
    "download_media_direct Video E_captcha ?u None False pool3 = Inr ([], g3)"
    by (elim exE conjE)
  then show ?thesis
    unfolding download_video_direct_def by (intro exI conjI)
qed

section \<open>The cookie inspector\<close>

lemma uri_scan_plain:
  "list_all uri_plain_char p \<Longrightarrow> uri_scan 0 out (p @ rest) = uri_scan 0 (out @ p) rest"
  by (induction p arbitrary: out) (simp_all add: uri_plain_char_def)

lemma uri_scan_mode_ro:
  "uri_scan 0 out ''?mode=ro'' = out @ NUL # ''mode'' @ NUL # ''ro''"
  by (simp add: NUL_def)

lemma split_nul_field:
  "NUL \<notin> set p \<Longrightarrow> split_nul field (p @ NUL # rest) = (field @ p) # split_nul [] rest"
  by (induction p arbitrary: field) auto

lemma split_nul_mode_ro:
  "split_nul [] (''mode'' @ NUL # ''ro'') = [''mode'', ''ro'']"
  by (simp add: NUL_def)

lemma uri_plain_no_nul: "list_all uri_plain_char p \<Longrightarrow> NUL \<notin> set p"
  by (auto simp: list_all_iff uri_plain_char_def)

lemma uri_strip_authority_plain:
  assumes "take 2 p \<noteq> ''//''"
  shows "uri_strip_authority (p @ ''?mode=ro'') = Inr (p @ ''?mode=ro'')"
proof -
  have "take 2 (p @ ''?mode=ro'') \<noteq> ''//''"
  proof (cases p)
    case Nil
    then show ?thesis by simp
  next
    case (Cons a q)
    then show ?thesis using assms by (cases q) auto
  qed
  then show ?thesis by (simp add: uri_strip_authority_def)
qed

lemma sqlite3ParseUri_plain:
  assumes "uri_plain p"
  shows "sqlite3ParseUri (''file:'' @ p @ ''?mode=ro'') (SQLITE_OPEN_READWRITE + SQLITE_OPEN_CREATE)
           = Inr (p, SQLITE_OPEN_READONLY)"
proof -
  from assms have pl: "list_all uri_plain_char p" and t: "take 2 p \<noteq> ''//''"
    by (simp_all add: uri_plain_def)
  have scan: "uri_scan 0 [] (p @ ''?mode=ro'') = p @ NUL # ''mode'' @ NUL # ''ro''"
    using uri_scan_plain [OF pl, of "[]" "''?mode=ro''"] by (simp only: uri_scan_mode_ro append_Nil)
  have split: "split_nul [] (p @ NUL # ''mode'' @ NUL # ''ro'') = [p, ''mode'', ''ro'']"
    using split_nul_field [OF uri_plain_no_nul [OF pl], of "[]" "''mode'' @ NUL # ''ro''"]
    by (simp only: split_nul_mode_ro append_Nil)
  have opts: "uri_apply_options (uri_options [''mode'', ''ro''])
                  (SQLITE_OPEN_READWRITE + SQLITE_OPEN_CREATE) None
                = Inr (SQLITE_OPEN_READONLY, None)"
    by code_simp
  have d: "drop 5 (''file:'' @ p @ ''?mode=ro'') = p @ ''?mode=ro''" by simp
  have parse: "sqlite3ParseUri (''file:'' @ p @ ''?mode=ro'') (SQLITE_OPEN_READWRITE + SQLITE_OPEN_CREATE)
          = (case uri_apply_options (uri_options [''mode'', ''ro''])
                    (SQLITE_OPEN_READWRITE + SQLITE_OPEN_CREATE) None of
               Inl e \<Rightarrow> Inl e
             | Inr (flags', zVfs) \<Rightarrow>
                 (case zVfs of
                    None \<Rightarrow> Inr (p, flags')
                  | Some v \<Rightarrow> if v \<in> set vfs_list then Inr (p, flags') else Inl DatabaseError))"
    by (simp only: sqlite3ParseUri_def d uri_strip_authority_plain [OF t] sum.case scan split
          Let_def list.sel)
  show ?thesis unfolding parse opts by simp
qed

lemma sqlite3_connect_plain:
  assumes "uri_plain p" and "p \<noteq> []" and "p \<noteq> '':memory:''"
  shows "sqlite3_connect w (''file:'' @ p @ ''?mode=ro'')
           = (case files w p of Some db \<Rightarrow> Inr (db, w) | None \<Rightarrow> Inl DatabaseError)"
proof -
  from assms(1) have "NUL \<notin> set p" by (simp add: uri_plain_def uri_plain_no_nul)
  then have n: "NUL \<notin> set (''file:'' @ p @ ''?mode=ro'')" by (simp add: NUL_def)
  have pu: "sqlite3ParseUri (''file:'' @ p @ ''?mode=ro'') (SQLITE_OPEN_READWRITE + SQLITE_OPEN_CREATE)
              = Inr (p, SQLITE_OPEN_READONLY)"
    by (rule sqlite3ParseUri_plain [OF assms(1)])
  have c: "sqlite3_connect w (''file:'' @ p @ ''?mode=ro'') = sqlite_open w p SQLITE_OPEN_READONLY"
    unfolding sqlite3_connect_def pu by (simp only: n if_False sum.case prod.case)
  have f: "SQLITE_OPEN_READONLY \<noteq> SQLITE_OPEN_MEMORY"
    "SQLITE_OPEN_READONLY \<noteq> SQLITE_OPEN_READWRITE + SQLITE_OPEN_CREATE"
    by (simp_all add: SQLITE_OPEN_READONLY_def SQLITE_OPEN_MEMORY_def SQLITE_OPEN_READWRITE_def)
  show ?thesis
    unfolding c using assms(2,3) f by (simp add: sqlite_open_def split: option.splits)
qed

lemma uri_plain_path_join:
  assumes "uri_plain d" and "list_all uri_plain_char name" and "name \<noteq> []" and "hd name \<noteq> CHR ''/''"
  shows "uri_plain (path_join d name)"
proof -
  have a: "list_all uri_plain_char (path_join d name)"
    using assms(1,2) by (simp add: path_join_def uri_plain_def uri_plain_char_def NUL_def)
  have b: "take 2 (path_join d name) \<noteq> ''//''"
  proof (cases d)
    case Nil
    then show ?thesis using assms(3,4) by (cases name) (simp_all add: path_join_def)
  next
    case (Cons x q)
    show ?thesis
    proof (cases q)
      case Nil
      with Cons show ?thesis using assms(3,4) by (cases name) (auto simp: path_join_def)
    next
      case (Cons y r)
      with \<open>d = x # q\<close> show ?thesis using assms(1) by (auto simp: path_join_def uri_plain_def)
    qed
  qed
  from a b show ?thesis by (simp add: uri_plain_def)
qed

lemma path_join_not_special:
  "name \<noteq> [] \<Longrightarrow> path_join d name \<noteq> []"
  "path_join d ''Cookies'' \<noteq> '':memory:''"
  by (auto simp: path_join_def)

lemma uri_plain_cookies:
  assumes "uri_plain profile_path"
  shows "uri_plain (path_join (path_join (path_join profile_path ''chromium'') ''Default'') ''Cookies'')"
    and "uri_plain (path_join (path_join profile_path ''Default'') ''Cookies'')"
proof -
  have c: "list_all uri_plain_char ''chromium''" "list_all uri_plain_char ''Default''"
    "list_all uri_plain_char ''Cookies''"
    by (simp_all add: uri_plain_char_def NUL_def)
  show "uri_plain (path_join (path_join (path_join profile_path ''chromium'') ''Default'') ''Cookies'')"
    by (intro uri_plain_path_join assms c) simp_all
  show "uri_plain (path_join (path_join profile_path ''Default'') ''Cookies'')"
    by (intro uri_plain_path_join assms c) simp_all
qed

lemma analyze_plain:
  assumes "uri_plain profile_path"
  shows "analyze_profile_cookies w profile_path =
     ((case cookies_db_of w profile_path of
         None \<Rightarrow> (False, False)
       | Some cookies_db \<Rightarrow>
           (case files w cookies_db of
              Some (CookieTable host_keys) \<Rightarrow>
                (list_ex (\<lambda>h. like_contains h ''youtube.com'') host_keys,
                 list_ex (\<lambda>h. like_contains h ''tiktok.com'') host_keys)
            | _ \<Rightarrow> (False, False))), w)"
proof (cases "cookies_db_of w profile_path")
  case None
  then show ?thesis by (simp add: analyze_profile_cookies_def)
next
  case (Some cookies_db)
  then consider
      (copy) "cookies_db = path_join (path_join (path_join profile_path ''chromium'') ''Default'') ''Cookies''"
    | (own) "cookies_db = path_join (path_join profile_path ''Default'') ''Cookies''"
    by (auto simp: cookies_db_of_def Let_def split: if_splits)
  then have "uri_plain cookies_db \<and> cookies_db \<noteq> [] \<and> cookies_db \<noteq> '':memory:''"
  proof cases
    case copy
    then show ?thesis
      using uri_plain_cookies(1) [OF assms] by (simp add: path_join_not_special)
  next
    case own
    then show ?thesis
      using uri_plain_cookies(2) [OF assms] by (simp add: path_join_not_special)
  qed
  then have pl: "uri_plain cookies_db" and ne: "cookies_db \<noteq> []" and nm: "cookies_db \<noteq> '':memory:''"
    by simp_all
  show ?thesis
    unfolding analyze_profile_cookies_def Some option.case sqlite3_connect_plain [OF pl ne nm]
    by (simp add: select_like_def split: option.splits cookie_store.splits)
qed

lemma verify_profiles_plain:
  "list_all uri_plain ps \<Longrightarrow>
   verify_profiles w ps platform =
     (list_ex (\<lambda>p. has_cookies (fst (analyze_profile_cookies w p)) platform) ps, w)"
proof (induction ps)
  case Nil
  then show ?case by simp
next
  case (Cons p ps)
  then have "snd (analyze_profile_cookies w p) = w" by (simp add: analyze_plain)
  then obtain platforms where a: "analyze_profile_cookies w p = (platforms, w)"
    by (cases "analyze_profile_cookies w p") simp
  from Cons show ?case by (simp add: a)
qed

text \<open>
  On a profile path that reads as itself inside the URI the inspector opens the file whose
  existence and size it has tested, and leaves the file system as it is. It answers true
  for a platform exactly when that file is a cookie table with a row whose host key matches
  the platform's domain; over a pool of such paths the check is true exactly when one of
  the profiles has such a row.
\<close>

theorem cookie_inspector_plain_paths:
  "(uri_plain profile_path \<longrightarrow>
      snd (analyze_profile_cookies w profile_path) = w
      \<and> (has_cookies (fst (analyze_profile_cookies w profile_path)) platform \<longleftrightarrow>
           platform \<noteq> Desconocida
           \<and> (\<exists>cookies_db host_keys h.
                 cookies_db_of w profile_path = Some cookies_db
               \<and> files w cookies_db = Some (CookieTable host_keys)
               \<and> h \<in> set host_keys \<and> like_contains h (platform_domain platform))))
   \<and> (list_all uri_plain (CHROMIUM_PROFILES g) \<longrightarrow>
      snd (verify_platform_cookies w g platform) = w
      \<and> (fst (verify_platform_cookies w g platform) \<longleftrightarrow>
           (\<exists>p\<in>set (CHROMIUM_PROFILES g).
              has_cookies (fst (analyze_profile_cookies w p)) platform)))"
proof (intro conjI impI)
  assume pl: "uri_plain profile_path"
  show "snd (analyze_profile_cookies w profile_path) = w"
    by (simp add: analyze_plain [OF pl])
  show "has_cookies (fst (analyze_profile_cookies w profile_path)) platform \<longleftrightarrow>
           platform \<noteq> Desconocida
           \<and> (\<exists>cookies_db host_keys h.
                 cookies_db_of w profile_path = Some cookies_db
               \<and> files w cookies_db = Some (CookieTable host_keys)
               \<and> h \<in> set host_keys \<and> like_contains h (platform_domain platform))"
  proof (cases "cookies_db_of w profile_path")
    case None
    then show ?thesis
      by (simp add: analyze_plain [OF pl] has_cookies_def split: platform.splits)
  next
    case (Some cookies_db)
    show ?thesis
    proof (cases "files w cookies_db")
      case None
      with Some show ?thesis
        by (simp add: analyze_plain [OF pl] has_cookies_def split: platform.splits)
    next
      case (Some db)
      with \<open>cookies_db_of w profile_path = Some cookies_db\<close> show ?thesis
        by (cases db; cases platform)
           (auto simp: analyze_plain [OF pl] has_cookies_def platform_domain_def list_ex_iff)
    qed
  qed
next
  assume pl: "list_all uri_plain (CHROMIUM_PROFILES g)"
  show "snd (verify_platform_cookies w g platform) = w"
    by (simp add: verify_platform_cookies_def verify_profiles_plain [OF pl])
  show "fst (verify_platform_cookies w g platform) \<longleftrightarrow>
           (\<exists>p\<in>set (CHROMIUM_PROFILES g).
              has_cookies (fst (analyze_profile_cookies w p)) platform)"
    by (simp add: verify_platform_cookies_def verify_profiles_plain [OF pl] list_ex_iff)
qed

theorem cookie_inspector_plain_paths_example:
  "has_cookies (fst (analyze_profile_cookies fs_example ''/home/u/chromium_data_1'')) YouTube
   \<and> (\<exists>cookies_db host_keys h.
         cookies_db_of fs_example ''/home/u/chromium_data_1'' = Some cookies_db
       \<and> files fs_example cookies_db = Some (CookieTable host_keys)
       \<and> h \<in> set host_keys \<and> like_contains h (platform_domain YouTube))
   \<and> \<not> has_cookies (fst (analyze_profile_cookies fs_example ''/home/u/chromium_data_2'')) YouTube
   \<and> fst (verify_platform_cookies fs_example pool3 YouTube)"
proof -
  have p1: "uri_plain ''/home/u/chromium_data_1''" by code_simp
  have a: "has_cookies (fst (analyze_profile_cookies fs_example ''/home/u/chromium_data_1'')) YouTube"
    by code_simp
  have b: "\<not> has_cookies (fst (analyze_profile_cookies fs_example ''/home/u/chromium_data_2'')) YouTube"
    by code_simp
  have pl: "list_all uri_plain (CHROMIUM_PROFILES pool3)" by code_simp
  have m: "''/home/u/chromium_data_1'' \<in> set (CHROMIUM_PROFILES pool3)" by (simp add: pool3_def)
  note t = cookie_inspector_plain_paths [of "''/home/u/chromium_data_1''" fs_example YouTube pool3]
  from t p1 a have 1: "\<exists>cookies_db host_keys h.
         cookies_db_of fs_example ''/home/u/chromium_data_1'' = Some cookies_db
       \<and> files fs_example cookies_db = Some (CookieTable host_keys)
       \<and> h \<in> set host_keys \<and> like_contains h (platform_domain YouTube)"
    by simp
  from t pl have "fst (verify_platform_cookies fs_example pool3 YouTube) \<longleftrightarrow>
           (\<exists>p\<in>set (CHROMIUM_PROFILES pool3).
              has_cookies (fst (analyze_profile_cookies fs_example p)) YouTube)"
    by simp
  with m a have 2: "fst (verify_platform_cookies fs_example pool3 YouTube)" by blast
  from a 1 b 2 show ?thesis by (intro conjI)
qed

text \<open>
  Claim C10 fails on the code. The inspector tests the existence and the size of the
  profile's cookie database under its path, but opens it through the string
  \<open>file:\<close>\<^emph>\<open>path\<close>\<open>?mode=ro\<close>, read as a URI. For the profile \<open>/home/u#1/chromium_data_1\<close>, whose
  database holds one cookie, of \<open>.example.org\<close>, the URI ends at the \<open>#\<close>: the file opened is
  \<open>/home/u\<close>, with the flags for reading, writing and creating, since the option
  \<open>mode=ro\<close> is lost with the rest. That file has a YouTube cookie, so the inspector
  answers true for YouTube, for the profile and for the pool, although the profile's store
  has no cookie of that domain. For the profile \<open>/home/u#1/chromium_data_2\<close>, with an empty
  synchronised copy and a damaged browser database, it answers true in the same way.
\<close>

theorem cookie_inspector_opens_other_file:
  "files fs_fragment ''/home/u#1/chromium_data_1/chromium/Default/Cookies''
     = Some (CookieTable [''.example.org''])
   \<and> \<not> like_contains ''.example.org'' (platform_domain YouTube)
   \<and> files fs_fragment ''/home/u#1/chromium_data_1/Default/Cookies'' = None
   \<and> sqlite3ParseUri ''file:/home/u#1/chromium_data_1/chromium/Default/Cookies?mode=ro''
         (SQLITE_OPEN_READWRITE + SQLITE_OPEN_CREATE)
       = Inr (''/home/u'', SQLITE_OPEN_READWRITE + SQLITE_OPEN_CREATE)
   \<and> fst (analyze_profile_cookies fs_fragment ''/home/u#1/chromium_data_1'') = (True, False)
   \<and> has_cookies (fst (analyze_profile_cookies fs_fragment ''/home/u#1/chromium_data_1'')) YouTube
   \<and> fst (verify_platform_cookies fs_fragment pool_fragment YouTube)
   \<and> files fs_fragment ''/home/u#1/chromium_data_2/chromium/Default/Cookies'' = Some ZeroSize
   \<and> files fs_fragment ''/home/u#1/chromium_data_2/Default/Cookies'' = Some Corrupt
   \<and> has_cookies (fst (analyze_profile_cookies fs_fragment ''/home/u#1/chromium_data_2'')) YouTube"
proof -
  have 1: "files fs_fragment ''/home/u#1/chromium_data_1/chromium/Default/Cookies''
     = Some (CookieTable [''.example.org''])"
    by (simp add: fs_fragment_def)
  have 2: "\<not> like_contains ''.example.org'' (platform_domain YouTube)"
    by code_simp
  have 3: "files fs_fragment ''/home/u#1/chromium_data_1/Default/Cookies'' = None"
    by (simp add: fs_fragment_def)
  have 4: "sqlite3ParseUri ''file:/home/u#1/chromium_data_1/chromium/Default/Cookies?mode=ro''
         (SQLITE_OPEN_READWRITE + SQLITE_OPEN_CREATE)
       = Inr (''/home/u'', SQLITE_OPEN_READWRITE + SQLITE_OPEN_CREATE)"
    by code_simp
  have 5: "fst (analyze_profile_cookies fs_fragment ''/home/u#1/chromium_data_1'') = (True, False)"
    by code_simp
  have 6: "has_cookies (fst (analyze_profile_cookies fs_fragment ''/home/u#1/chromium_data_1'')) YouTube"
    by (simp add: 5 has_cookies_def)
  have 7: "fst (verify_platform_cookies fs_fragment pool_fragment YouTube)"
    by code_simp
  have 8: "files fs_fragment ''/home/u#1/chromium_data_2/chromium/Default/Cookies'' = Some ZeroSize"
    by (simp add: fs_fragment_def)
  have 9: "files fs_fragment ''/home/u#1/chromium_data_2/Default/Cookies'' = Some Corrupt"
    by (simp add: fs_fragment_def)
  have 10: "has_cookies (fst (analyze_profile_cookies fs_fragment ''/home/u#1/chromium_data_2'')) YouTube"
    by code_simp
  from 1 2 3 4 5 6 7 8 9 10 show ?thesis by (intro conjI)
qed

end
